theory Spec2Isabelle
  imports Main "HOL-Library.Sublist"
begin

section \<open>Python strings and dictionaries\<close>

text \<open>
  A Python \<open>str\<close> is modelled as a \<open>string\<close> whose characters are the code points
  below 256. On these code points \<open>str.strip\<close>, \<open>str.lower\<close> and \<open>int\<close> behave as
  written below. A \<open>dict\<close> keeps insertion order, so it is an association list with
  distinct keys: storing under an existing key replaces the value in place, storing
  under a new key appends.
\<close>

type_synonym ('k, 'v) dict = "('k \<times> 'v) list"

definition dict_get :: "('k, 'v) dict \<Rightarrow> 'k \<Rightarrow> 'v option" where
  "dict_get d k = map_of d k"

fun dict_set :: "'k \<Rightarrow> 'v \<Rightarrow> ('k, 'v) dict \<Rightarrow> ('k, 'v) dict" where
  "dict_set k v [] = [(k, v)]"
| "dict_set k v ((k', v') # d) =
     (if k' = k then (k, v) # d else (k', v') # dict_set k v d)"

definition dict_keys :: "('k, 'v) dict \<Rightarrow> 'k list" where
  "dict_keys d = map fst d"

definition dict_values :: "('k, 'v) dict \<Rightarrow> 'v list" where
  "dict_values d = map snd d"

definition is_space :: "char \<Rightarrow> bool" where
  "is_space c \<longleftrightarrow> c \<in> {CHR 0x09, CHR 0x0A, CHR 0x0B, CHR 0x0C, CHR 0x0D,
     CHR 0x1C, CHR 0x1D, CHR 0x1E, CHR 0x1F, CHR 0x20, CHR 0x85, CHR 0xA0}"

definition strip_chars :: "(char \<Rightarrow> bool) \<Rightarrow> string \<Rightarrow> string" where
  "strip_chars P s = rev (dropWhile P (rev (dropWhile P s)))"

text \<open>\<open>s.strip()\<close> and \<open>s.strip('/')\<close>.\<close>

definition py_strip :: "string \<Rightarrow> string" where
  "py_strip s = strip_chars is_space s"

definition strip_slash :: "string \<Rightarrow> string" where
  "strip_slash s = strip_chars (\<lambda>c. c = CHR ''/'') s"

text \<open>\<open>s.split(sep, maxsplit)\<close> for a one-character separator.\<close>

fun py_split :: "char \<Rightarrow> nat \<Rightarrow> string \<Rightarrow> string list" where
  "py_split sep 0 s = [s]"
| "py_split sep (Suc n) s =
     (if sep \<in> set s
      then takeWhile (\<lambda>c. c \<noteq> sep) s # py_split sep n (tl (dropWhile (\<lambda>c. c \<noteq> sep) s))
      else [s])"

text \<open>\<open>s.split(sep)\<close>: a string holds at most \<open>length s\<close> separators.\<close>

definition split_all :: "char \<Rightarrow> string \<Rightarrow> string list" where
  "split_all sep s = py_split sep (length s) s"

text \<open>\<open>sep.join(parts)\<close>.\<close>

fun join :: "string \<Rightarrow> string list \<Rightarrow> string" where
  "join sep [] = []"
| "join sep [p] = p"
| "join sep (p # q # ps) = p @ sep @ join sep (q # ps)"

text \<open>\<open>s.replace(c, '')\<close> for a one-character \<open>c\<close>.\<close>

definition remove_char :: "char \<Rightarrow> string \<Rightarrow> string" where
  "remove_char c s = filter (\<lambda>x. x \<noteq> c) s"

definition is_digit :: "char \<Rightarrow> bool" where
  "is_digit c \<longleftrightarrow> 48 \<le> (of_char c :: nat) \<and> (of_char c :: nat) \<le> 57"

definition digit_val :: "char \<Rightarrow> nat" where
  "digit_val c = of_char c - 48"

text \<open>
  The digits of \<open>int(s)\<close> after the sign: decimal digits, with single underscores
  allowed between two digits.
\<close>

fun int_digits :: "nat \<Rightarrow> string \<Rightarrow> nat option" where
  "int_digits acc [] = Some acc"
| "int_digits acc [c] = (if is_digit c then Some (acc * 10 + digit_val c) else None)"
| "int_digits acc (c # d # cs) =
     (if c = CHR ''_'' then (if is_digit d then int_digits acc (d # cs) else None)
      else if is_digit c then int_digits (acc * 10 + digit_val c) (d # cs)
      else None)"

text \<open>
  \<open>int(s)\<close>: surrounding whitespace is dropped, one sign is allowed, and the rest
  must start with a digit. \<open>None\<close> is the \<open>ValueError\<close>. The whitespace \<open>int\<close> drops is
  not that of \<open>strip\<close>: the separators U+001C to U+001F are kept and make the
  conversion fail. A string of more than 4300 digits is refused as well (the
  interpreter's default limit on integer strings).
\<close>

definition is_int_space :: "char \<Rightarrow> bool" where
  "is_int_space c \<longleftrightarrow> c \<in> {CHR 0x09, CHR 0x0A, CHR 0x0B, CHR 0x0C, CHR 0x0D,
     CHR 0x20, CHR 0x85, CHR 0xA0}"

definition py_int :: "string \<Rightarrow> int option" where
  "py_int s =
     (let t = strip_chars is_int_space s;
          neg = (case t of c # r \<Rightarrow> c = CHR ''-'' | [] \<Rightarrow> False);
          u = (case t of c # r \<Rightarrow> if c = CHR ''-'' \<or> c = CHR ''+'' then r else t | [] \<Rightarrow> t)
      in case u of
           [] \<Rightarrow> None
         | c # cs \<Rightarrow>
             if is_digit c \<and> length (filter is_digit u) \<le> 4300
             then map_option (\<lambda>n. if neg then - int n else int n) (int_digits 0 u)
             else None)"

text \<open>\<open>s.lower()\<close> on code points below 256.\<close>

definition lower_char :: "char \<Rightarrow> char" where
  "lower_char c =
     (let n = (of_char c :: nat)
      in if (65 \<le> n \<and> n \<le> 90) \<or> (192 \<le> n \<and> n \<le> 214) \<or> (216 \<le> n \<and> n \<le> 222)
         then char_of (n + 32) else c)"

definition py_lower :: "string \<Rightarrow> string" where
  "py_lower s = map lower_char s"

text \<open>\<open>q in s\<close> for strings: \<open>q\<close> occurs as a contiguous piece of \<open>s\<close>.\<close>

definition py_in :: "string \<Rightarrow> string \<Rightarrow> bool" where
  "py_in q s = sublist q s"

section \<open>Data model\<close>

text \<open>
  The \<open>birth\<close>, \<open>death\<close> and \<open>marriage\<close> dictionaries start empty; each of the keys
  \<open>date\<close> and \<open>place\<close> is absent (\<open>None\<close>) until a line sets it.
\<close>

record event =
  date :: "string option"
  place :: "string option"

definition empty_event :: event where
  "empty_event = \<lparr>date = None, place = None\<rparr>"

text \<open>
  The individual dictionary. The keys \<open>parents\<close>, \<open>spouse\<close> and \<open>children\<close> are absent
  (\<open>None\<close>) until the relationship pass adds them.
\<close>

record individual =
  ind_id :: string
  name :: string
  gender :: string
  birth :: event
  death :: event
  occupation :: string
  ind_notes :: "string list"
  families_as_child :: "string list"
  families_as_spouse :: "string list"
  media :: "string list"
  parents :: "string list option"
  spouse :: "string list option"
  children :: "string list option"

record family =
  fam_id :: string
  marriage :: event
  husband :: string
  wife :: string
  fam_children :: "string list"
  fam_notes :: "string list"
  divorced :: bool

datatype section_name = Birth | Death | Media | Notes

text \<open>Python truthiness of an optional string: \<open>None\<close> and \<open>''\<close> are false.\<close>

definition truthy :: "string option \<Rightarrow> bool" where
  "truthy s = (case s of None \<Rightarrow> False | Some v \<Rightarrow> v \<noteq> [])"

section \<open>Line tokenizing\<close>

text \<open>
  Both extraction loops start with the same statements: strip the line, skip it when
  empty, split it at the first two single spaces, skip it when there are fewer than
  two parts or when \<open>int(parts[0])\<close> raises \<open>ValueError\<close>. \<open>tokenize\<close> returns the
  level, the tag, the value and \<open>parts\<close>, or \<open>None\<close> for a skipped line.
\<close>

definition tokenize :: "string \<Rightarrow> (int \<times> string \<times> string \<times> string list) option" where
  "tokenize line0 =
     (let line = py_strip line0
      in if line = [] then None
         else let parts = py_split (CHR '' '') 2 line
              in if length parts < 2 then None
                 else case py_int (parts ! 0) of
                        None \<Rightarrow> None
                      | Some level \<Rightarrow>
                          Some (level, parts ! 1,
                                (if length parts > 2 then parts ! 2 else []), parts))"

section \<open>Individual extraction\<close>

record ind_state =
  current_individual :: "string option"
  current_record :: "individual option"
  current_section :: "section_name option"
  individuals_acc :: "(string, individual) dict"

text \<open>
  \<open>current_record\<close> is \<open>{}\<close> (here \<open>None\<close>) before the first record starts; a record is
  committed when \<open>current_individual and current_record\<close> holds.
\<close>

definition ind_commit :: "ind_state \<Rightarrow> (string, individual) dict" where
  "ind_commit st =
     (case (current_individual st, current_record st) of
        (Some cid, Some r) \<Rightarrow>
          if cid \<noteq> [] then dict_set cid r (individuals_acc st) else individuals_acc st
      | _ \<Rightarrow> individuals_acc st)"

definition strip_indi_id :: "string \<Rightarrow> string" where
  "strip_indi_id tag =
     remove_char (CHR ''@'') (remove_char (CHR ''I'') (remove_char (CHR ''@'') tag))"

definition strip_fam_ref :: "string \<Rightarrow> string" where
  "strip_fam_ref v = remove_char (CHR ''F'') (remove_char (CHR ''@'') v)"

definition strip_indi_ref :: "string \<Rightarrow> string" where
  "strip_indi_ref v = remove_char (CHR ''I'') (remove_char (CHR ''@'') v)"

definition new_individual :: "string \<Rightarrow> individual" where
  "new_individual cid =
     \<lparr>ind_id = cid, name = [], gender = [], birth = empty_event, death = empty_event,
      occupation = [], ind_notes = [], families_as_child = [], families_as_spouse = [],
      media = [], parents = None, spouse = None, children = None\<rparr>"

definition clean_name :: "string \<Rightarrow> string" where
  "clean_name v =
     (if v \<noteq> [] then
        (let cleaned_name = strip_slash v
         in if CHR ''/'' \<in> set cleaned_name
            then join '' '' (map py_strip
                   (filter (\<lambda>part. py_strip part \<noteq> []) (split_all (CHR ''/'') cleaned_name)))
            else cleaned_name)
      else [])"

definition upd_record :: "(individual \<Rightarrow> individual) \<Rightarrow> ind_state \<Rightarrow> ind_state" where
  "upd_record f st = st\<lparr>current_record := map_option f (current_record st)\<rparr>"

definition ind_level1 :: "ind_state \<Rightarrow> string \<Rightarrow> string \<Rightarrow> ind_state" where
  "ind_level1 st tag v =
     (if tag = ''NAME'' then upd_record (\<lambda>r. r\<lparr>name := clean_name v\<rparr>) st
      else if tag = ''SEX'' then upd_record (\<lambda>r. r\<lparr>gender := v\<rparr>) st
      else if tag = ''OCCU'' then upd_record (\<lambda>r. r\<lparr>occupation := v\<rparr>) st
      else if tag = ''BIRT'' then st\<lparr>current_section := Some Birth\<rparr>
      else if tag = ''DEAT'' then st\<lparr>current_section := Some Death\<rparr>
      else if tag = ''FAMC'' then
        (let fid = (if v \<noteq> [] then strip_fam_ref v else [])
         in if fid \<noteq> []
            then upd_record (\<lambda>r. r\<lparr>families_as_child := families_as_child r @ [fid]\<rparr>) st
            else st)
      else if tag = ''FAMS'' then
        (let fid = (if v \<noteq> [] then strip_fam_ref v else [])
         in if fid \<noteq> []
            then upd_record (\<lambda>r. r\<lparr>families_as_spouse := families_as_spouse r @ [fid]\<rparr>) st
            else st)
      else if tag = ''OBJE'' then st\<lparr>current_section := Some Media\<rparr>
      else if tag = ''NOTE'' then
        (let st1 = st\<lparr>current_section := Some Notes\<rparr>
         in if v \<noteq> [] then upd_record (\<lambda>r. r\<lparr>ind_notes := ind_notes r @ [v]\<rparr>) st1 else st1)
      else st)"

definition ind_level2 :: "ind_state \<Rightarrow> section_name \<Rightarrow> string \<Rightarrow> string \<Rightarrow> ind_state" where
  "ind_level2 st sec tag v =
     (case sec of
        Birth \<Rightarrow>
          if tag = ''DATE'' then upd_record (\<lambda>r. r\<lparr>birth := (birth r)\<lparr>date := Some v\<rparr>\<rparr>) st
          else if tag = ''PLAC'' then upd_record (\<lambda>r. r\<lparr>birth := (birth r)\<lparr>place := Some v\<rparr>\<rparr>) st
          else st
      | Death \<Rightarrow>
          if tag = ''DATE'' then upd_record (\<lambda>r. r\<lparr>death := (death r)\<lparr>date := Some v\<rparr>\<rparr>) st
          else if tag = ''PLAC'' then upd_record (\<lambda>r. r\<lparr>death := (death r)\<lparr>place := Some v\<rparr>\<rparr>) st
          else st
      | Media \<Rightarrow>
          if tag = ''FILE'' then upd_record (\<lambda>r. r\<lparr>media := media r @ [v]\<rparr>) st else st
      | Notes \<Rightarrow>
          if tag = ''CONT'' \<or> tag = ''CONC'' then
            (if v \<noteq> [] then upd_record (\<lambda>r. r\<lparr>ind_notes := ind_notes r @ [v]\<rparr>) st else st)
          else if tag = ''NOTE'' then
            (if v \<noteq> [] then upd_record (\<lambda>r. r\<lparr>ind_notes := ind_notes r @ [v]\<rparr>) st else st)
          else st)"

text \<open>One iteration of the loop of \<open>_extract_individuals\<close>.\<close>

definition ind_step :: "ind_state \<Rightarrow> string \<Rightarrow> ind_state" where
  "ind_step st line =
     (case tokenize line of
        None \<Rightarrow> st
      | Some (level, tag, v, parts) \<Rightarrow>
          if level = 0 \<and> length parts \<ge> 3 \<and> parts ! 2 = ''INDI'' then
            (let cid = strip_indi_id tag
             in \<lparr>current_individual = Some cid,
                 current_record = Some (new_individual cid),
                 current_section = None,
                 individuals_acc = ind_commit st\<rparr>)
          else if truthy (current_individual st) \<and> level = 1 then ind_level1 st tag v
          else if truthy (current_individual st) \<and> level = 2 \<and> current_section st \<noteq> None then
            (case current_section st of Some sec \<Rightarrow> ind_level2 st sec tag v | None \<Rightarrow> st)
          else st)"

definition ind_init :: "(string, individual) dict \<Rightarrow> ind_state" where
  "ind_init inds =
     \<lparr>current_individual = None, current_record = None, current_section = None,
      individuals_acc = inds\<rparr>"

text \<open>
  \<open>_extract_individuals\<close> on the lines and the \<open>individuals\<close> dictionary of the parser:
  the loop, then the commit of the last record.
\<close>

definition extract_individuals ::
  "string list \<Rightarrow> (string, individual) dict \<Rightarrow> (string, individual) dict" where
  "extract_individuals ls inds = ind_commit (foldl ind_step (ind_init inds) ls)"

section \<open>Family extraction\<close>

record fam_state =
  current_family :: "string option"
  current_fam_record :: "family option"
  families_acc :: "(string, family) dict"

definition fam_commit :: "fam_state \<Rightarrow> (string, family) dict" where
  "fam_commit st =
     (case (current_family st, current_fam_record st) of
        (Some cid, Some r) \<Rightarrow>
          if cid \<noteq> [] then dict_set cid r (families_acc st) else families_acc st
      | _ \<Rightarrow> families_acc st)"

definition strip_fam_id :: "string \<Rightarrow> string" where
  "strip_fam_id tag =
     remove_char (CHR ''@'') (remove_char (CHR ''F'') (remove_char (CHR ''@'') tag))"

definition new_family :: "string \<Rightarrow> family" where
  "new_family cid =
     \<lparr>fam_id = cid, marriage = empty_event, husband = [], wife = [], fam_children = [],
      fam_notes = [], divorced = False\<rparr>"

definition upd_fam_record :: "(family \<Rightarrow> family) \<Rightarrow> fam_state \<Rightarrow> fam_state" where
  "upd_fam_record f st = st\<lparr>current_fam_record := map_option f (current_fam_record st)\<rparr>"

definition fam_level1 :: "fam_state \<Rightarrow> string \<Rightarrow> string \<Rightarrow> fam_state" where
  "fam_level1 st tag v =
     (if tag = ''MARR'' then st
      else if tag = ''DIV'' then upd_fam_record (\<lambda>r. r\<lparr>divorced := True\<rparr>) st
      else if tag = ''SEP'' then upd_fam_record (\<lambda>r. r\<lparr>divorced := True\<rparr>) st
      else if tag = ''HUSB'' then
        upd_fam_record (\<lambda>r. r\<lparr>husband := (if v \<noteq> [] then strip_indi_ref v else [])\<rparr>) st
      else if tag = ''WIFE'' then
        upd_fam_record (\<lambda>r. r\<lparr>wife := (if v \<noteq> [] then strip_indi_ref v else [])\<rparr>) st
      else if tag = ''CHIL'' then
        (let child_id = (if v \<noteq> [] then strip_indi_ref v else [])
         in if child_id \<noteq> []
            then upd_fam_record (\<lambda>r. r\<lparr>fam_children := fam_children r @ [child_id]\<rparr>) st
            else st)
      else if tag = ''NOTE'' then
        (if v \<noteq> [] then upd_fam_record (\<lambda>r. r\<lparr>fam_notes := fam_notes r @ [v]\<rparr>) st else st)
      else st)"

definition fam_level2 :: "fam_state \<Rightarrow> string \<Rightarrow> string \<Rightarrow> fam_state" where
  "fam_level2 st tag v =
     (if tag = ''DATE'' then
        upd_fam_record (\<lambda>r. r\<lparr>marriage := (marriage r)\<lparr>date := Some v\<rparr>\<rparr>) st
      else if tag = ''PLAC'' then
        upd_fam_record (\<lambda>r. r\<lparr>marriage := (marriage r)\<lparr>place := Some v\<rparr>\<rparr>) st
      else st)"

text \<open>One iteration of the loop of \<open>_extract_families\<close>.\<close>

definition fam_step :: "fam_state \<Rightarrow> string \<Rightarrow> fam_state" where
  "fam_step st line =
     (case tokenize line of
        None \<Rightarrow> st
      | Some (level, tag, v, parts) \<Rightarrow>
          if level = 0 \<and> length parts \<ge> 3 \<and> parts ! 2 = ''FAM'' then
            (let cid = strip_fam_id tag
             in \<lparr>current_family = Some cid,
                 current_fam_record = Some (new_family cid),
                 families_acc = fam_commit st\<rparr>)
          else if truthy (current_family st) \<and> level = 1 then fam_level1 st tag v
          else if truthy (current_family st) \<and> level = 2 then fam_level2 st tag v
          else st)"

definition fam_init :: "(string, family) dict \<Rightarrow> fam_state" where
  "fam_init fams = \<lparr>current_family = None, current_fam_record = None, families_acc = fams\<rparr>"

definition extract_families ::
  "string list \<Rightarrow> (string, family) dict \<Rightarrow> (string, family) dict" where
  "extract_families ls fams = fam_commit (foldl fam_step (fam_init fams) ls)"

section \<open>Relationship resolution\<close>

text \<open>The body of \<open>for fam_id in individual['families_as_child']\<close>.\<close>

definition add_parents :: "(string, family) dict \<Rightarrow> string list \<Rightarrow> string \<Rightarrow> string list" where
  "add_parents fams acc fid =
     (case dict_get fams fid of
        None \<Rightarrow> acc
      | Some family \<Rightarrow>
          (let acc1 = (if husband family \<noteq> [] then acc @ [husband family] else acc)
           in if wife family \<noteq> [] then acc1 @ [wife family] else acc1))"

text \<open>The body of \<open>for fam_id in individual['families_as_spouse']\<close>.\<close>

definition add_spouse_children ::
  "(string, family) dict \<Rightarrow> string \<Rightarrow> string list \<times> string list \<Rightarrow> string
     \<Rightarrow> string list \<times> string list" where
  "add_spouse_children fams iid acc fid =
     (case dict_get fams fid of
        None \<Rightarrow> acc
      | Some family \<Rightarrow>
          ((if husband family = iid \<and> wife family \<noteq> [] then fst acc @ [wife family]
            else if wife family = iid \<and> husband family \<noteq> [] then fst acc @ [husband family]
            else fst acc),
           snd acc @ fam_children family))"

definition resolve_one :: "(string, family) dict \<Rightarrow> string \<Rightarrow> individual \<Rightarrow> individual" where
  "resolve_one fams iid individual =
     (let ps = foldl (add_parents fams) [] (families_as_child individual);
          sc = foldl (add_spouse_children fams iid) ([], []) (families_as_spouse individual)
      in individual\<lparr>parents := Some ps, spouse := Some (fst sc), children := Some (snd sc)\<rparr>)"

definition clean_up :: "individual \<Rightarrow> individual" where
  "clean_up individual =
     individual\<lparr>parents := map_option (filter (\<lambda>p. p \<noteq> [])) (parents individual),
                spouse := map_option (filter (\<lambda>s. s \<noteq> [])) (spouse individual),
                children := map_option (filter (\<lambda>c. c \<noteq> [])) (children individual)\<rparr>"

text \<open>
  \<open>_resolve_relationships\<close>: the first loop visits every entry of \<open>individuals\<close> and reads
  only \<open>families\<close>; the second loop filters the three lists of every entry.
\<close>

definition resolve_relationships ::
  "(string, individual) dict \<Rightarrow> (string, family) dict \<Rightarrow> (string, individual) dict" where
  "resolve_relationships inds fams =
     map (\<lambda>(iid, individual). (iid, clean_up individual))
       (map (\<lambda>(iid, individual). (iid, resolve_one fams iid individual)) inds)"

section \<open>The parser object and \<open>parse\<close>\<close>

record parser =
  gedcom_file :: string
  individuals :: "(string, individual) dict"
  families :: "(string, family) dict"
  lines :: "string list"

definition GEDCOMParser :: "string \<Rightarrow> parser" where
  "GEDCOMParser f = \<lparr>gedcom_file = f, individuals = [], families = [], lines = []\<rparr>"

text \<open>
  A method either finishes or raises an \<open>Exception\<close> (carrying \<open>str(e)\<close>); in both
  cases it leaves a parser state behind.
\<close>

datatype exn = Exception string

type_synonym 'a prog = "parser \<Rightarrow> (exn + 'a) \<times> parser"

definition seq :: "unit prog \<Rightarrow> 'a prog \<Rightarrow> 'a prog" where
  "seq p q s = (case p s of (Inl e, s1) \<Rightarrow> (Inl e, s1) | (Inr u, s1) \<Rightarrow> q s1)"

definition try_except :: "'a prog \<Rightarrow> (exn \<Rightarrow> 'a prog) \<Rightarrow> 'a prog" where
  "try_except p h s = (case p s of (Inl e, s1) \<Rightarrow> h e s1 | (Inr v, s1) \<Rightarrow> (Inr v, s1))"

record summary =
  total_individuals :: nat
  total_families :: nat
  parsed_at :: string
  error :: "string option"

record parse_result =
  res_individuals :: "(string, individual) dict"
  res_families :: "(string, family) dict"
  res_summary :: summary

text \<open>
  \<open>parse\<close> over arbitrary methods. \<open>parse_body\<close> is the block of the outer \<open>try\<close>:
  reading is guarded by a handler that sets \<open>lines\<close> to the empty list, individual
  extraction by a handler that does nothing, family extraction and resolution are
  not guarded.
\<close>

definition parse_body :: "unit prog \<Rightarrow> unit prog \<Rightarrow> unit prog \<Rightarrow> unit prog \<Rightarrow> unit prog" where
  "parse_body m_read_file m_extract_individuals m_extract_families m_resolve_relationships =
     seq (try_except m_read_file (\<lambda>read_error s. (Inr (), s\<lparr>lines := []\<rparr>)))
     (seq (try_except m_extract_individuals (\<lambda>ind_error s. (Inr (), s)))
     (seq m_extract_families m_resolve_relationships))"

text \<open>
  The handler of the outer \<open>try\<close> returns the dictionary with empty maps and the
  \<open>error\<close> key; without an exception the statement after the \<open>try\<close> returns the maps
  of the parser. \<open>now\<close> is the value of \<open>datetime.now().isoformat()\<close>. A result
  \<open>Inl e\<close> would be an exception that reaches the caller.
\<close>

definition parse_with ::
  "unit prog \<Rightarrow> unit prog \<Rightarrow> unit prog \<Rightarrow> unit prog \<Rightarrow> string \<Rightarrow> parse_result prog" where
  "parse_with m_read_file m_extract_individuals m_extract_families m_resolve_relationships now =
     try_except
       (seq (parse_body m_read_file m_extract_individuals m_extract_families
               m_resolve_relationships)
            (\<lambda>s. (Inr \<lparr>res_individuals = individuals s, res_families = families s,
                        res_summary = \<lparr>total_individuals = length (individuals s),
                                       total_families = length (families s),
                                       parsed_at = now, error = None\<rparr>\<rparr>, s)))
       (\<lambda>e s. case e of Exception msg \<Rightarrow>
          (Inr \<lparr>res_individuals = [], res_families = [],
                res_summary = \<lparr>total_individuals = 0, total_families = 0,
                               parsed_at = now, error = Some msg\<rparr>\<rparr>, s))"

text \<open>
  \<open>_read_file\<close>: \<open>rd\<close> is what opening and reading the file gives, the exception raised
  or the list returned by \<open>readlines\<close>.
\<close>

definition read_file :: "exn + string list \<Rightarrow> unit prog" where
  "read_file rd s =
     (case rd of
        Inl e \<Rightarrow> (Inl e, s)
      | Inr raw_lines \<Rightarrow>
          (Inr (), s\<lparr>lines := map py_strip (filter (\<lambda>line. py_strip line \<noteq> []) raw_lines)\<rparr>))"

definition extract_individuals_stage :: "unit prog" where
  "extract_individuals_stage s =
     (Inr (), s\<lparr>individuals := extract_individuals (lines s) (individuals s)\<rparr>)"

definition extract_families_stage :: "unit prog" where
  "extract_families_stage s =
     (Inr (), s\<lparr>families := extract_families (lines s) (families s)\<rparr>)"

definition resolve_relationships_stage :: "unit prog" where
  "resolve_relationships_stage s =
     (Inr (), s\<lparr>individuals := resolve_relationships (individuals s) (families s)\<rparr>)"

definition parse :: "exn + string list \<Rightarrow> string \<Rightarrow> parse_result prog" where
  "parse rd now =
     parse_with (read_file rd) extract_individuals_stage extract_families_stage
       resolve_relationships_stage now"

section \<open>Query engine\<close>

definition find_person :: "(string, individual) dict \<Rightarrow> string \<Rightarrow> individual list" where
  "find_person inds name_query =
     (let query = py_lower name_query
      in map snd (filter (\<lambda>(iid, person). py_in query (py_lower (name person))) inds))"

text \<open>\<open>d.get(key, '')\<close> on an event dictionary.\<close>

definition get_or_empty :: "string option \<Rightarrow> string" where
  "get_or_empty v = (case v of None \<Rightarrow> [] | Some x \<Rightarrow> x)"

definition search_by_location :: "(string, individual) dict \<Rightarrow> string \<Rightarrow> individual list" where
  "search_by_location inds location =
     (let query = py_lower location
      in map snd (filter (\<lambda>(iid, person).
           (let birth_place = py_lower (get_or_empty (place (birth person)));
                death_place = py_lower (get_or_empty (place (death person)))
            in py_in query birth_place \<or> py_in query death_place)) inds))"

subsection \<open>Family tree\<close>

text \<open>
  A tree node; the keys \<open>parents\<close> and \<open>children\<close> are present only on an expanded
  node. The empty dictionary \<open>{}\<close> that \<open>build_tree\<close> returns for a cut-off call is
  \<open>None\<close>.
\<close>

datatype tree =
  Node (tree_id: string) (tree_name: string) (tree_birth: event) (tree_death: event)
       (generation: int) (tree_parents: "tree list option") (tree_children: "tree list option")

datatype tree_error = KeyError string | RecursionError

text \<open>
  The results of the recursive calls of one loop, in order: the first exception
  ends the loop, empty dictionaries are not appended.
\<close>

fun collect :: "(tree_error + tree option) list \<Rightarrow> tree_error + tree list" where
  "collect [] = Inr []"
| "collect (Inl e # rs) = Inl e"
| "collect (Inr t # rs) =
     (case collect rs of
        Inl e \<Rightarrow> Inl e
      | Inr ts \<Rightarrow> Inr (case t of None \<Rightarrow> ts | Some n \<Rightarrow> n # ts))"

text \<open>
  \<open>build_tree\<close> may recurse without end, so the model carries the number of nested
  calls the interpreter still allows; at zero the call raises \<open>RecursionError\<close>.
\<close>

fun build_tree ::
  "nat \<Rightarrow> (string, individual) dict \<Rightarrow> string \<Rightarrow> int \<Rightarrow> int \<Rightarrow> tree_error + tree option" where
  "build_tree 0 inds pid gen max_gen = Inl RecursionError"
| "build_tree (Suc depth) inds pid gen max_gen =
     (if gen \<ge> max_gen then Inr None
      else case dict_get inds pid of
        None \<Rightarrow> Inr None
      | Some person \<Rightarrow>
          if gen < max_gen - 1 then
            (case parents person of
               None \<Rightarrow> Inl (KeyError ''parents'')
             | Some ps \<Rightarrow>
                (case collect (map (\<lambda>parent_id. build_tree depth inds parent_id (gen + 1) max_gen) ps) of
                   Inl e \<Rightarrow> Inl e
                 | Inr parent_trees \<Rightarrow>
                    (case children person of
                       None \<Rightarrow> Inl (KeyError ''children'')
                     | Some cs \<Rightarrow>
                        (case collect (map (\<lambda>child_id. build_tree depth inds child_id (gen - 1) max_gen) cs) of
                           Inl e \<Rightarrow> Inl e
                         | Inr child_trees \<Rightarrow>
                             Inr (Some (Node pid (name person) (birth person) (death person) gen
                                         (Some parent_trees) (Some child_trees)))))))
          else Inr (Some (Node pid (name person) (birth person) (death person) gen None None)))"

definition get_family_tree ::
  "nat \<Rightarrow> (string, individual) dict \<Rightarrow> string \<Rightarrow> int \<Rightarrow> tree_error + tree option" where
  "get_family_tree depth inds person_id generations =
     (if dict_get inds person_id = None then Inr None
      else build_tree depth inds person_id 0 generations)"

subsection \<open>Statistics\<close>

record stats =
  stats_total_individuals :: nat
  stats_total_families :: nat
  gender_distribution :: "(string, nat) dict"
  occupation_distribution :: "(string, nat) dict"
  century_distribution :: "(string, nat) dict"
  living_people :: nat

text \<open>\<open>d[k] = d.get(k, 0) + 1\<close>, which on a present key is \<open>d[k] += 1\<close>.\<close>

definition dict_incr :: "string \<Rightarrow> (string, nat) dict \<Rightarrow> (string, nat) dict" where
  "dict_incr k d = dict_set k ((case dict_get d k of None \<Rightarrow> 0 | Some n \<Rightarrow> n) + 1) d"

text \<open>\<open>str(n)\<close> for an integer.\<close>

fun str_nat :: "nat \<Rightarrow> string" where
  "str_nat n =
     (if n < 10 then [char_of (48 + n)]
      else str_nat (n div 10) @ [char_of (48 + n mod 10)])"

definition str_int :: "int \<Rightarrow> string" where
  "str_int i = (if i < 0 then CHR ''-'' # str_nat (nat (- i)) else str_nat (nat i))"

text \<open>The body of the loop of \<open>get_statistics\<close>.\<close>

definition stats_step :: "stats \<Rightarrow> individual \<Rightarrow> stats" where
  "stats_step st person =
     (let st1 = (if gender person \<in> set (dict_keys (gender_distribution st))
                 then st\<lparr>gender_distribution := dict_incr (gender person) (gender_distribution st)\<rparr>
                 else st\<lparr>gender_distribution := dict_incr ''Unknown'' (gender_distribution st)\<rparr>);
          occ = occupation person;
          st2 = (if occ \<noteq> []
                 then st1\<lparr>occupation_distribution := dict_incr occ (occupation_distribution st1)\<rparr>
                 else st1);
          birth_date = get_or_empty (date (birth person));
          st3 = (if birth_date \<noteq> [] \<and> length birth_date \<ge> 4 then
                   (case py_int (drop (length birth_date - 4) birth_date) of
                      None \<Rightarrow> st2
                    | Some year \<Rightarrow>
                        (let century = year div 100 + 1
                         in st2\<lparr>century_distribution :=
                                  dict_incr (str_int century @ ''th century'')
                                    (century_distribution st2)\<rparr>))
                 else st2)
      in if \<not> truthy (date (death person))
         then st3\<lparr>living_people := living_people st3 + 1\<rparr>
         else st3)"

definition get_statistics :: "(string, individual) dict \<Rightarrow> (string, family) dict \<Rightarrow> stats" where
  "get_statistics inds fams =
     foldl stats_step
       \<lparr>stats_total_individuals = length inds, stats_total_families = length fams,
        gender_distribution = [(''M'', 0), (''F'', 0), (''Unknown'', 0)],
        occupation_distribution = [], century_distribution = [], living_people = 0\<rparr>
       (dict_values inds)"

section \<open>Specification-side definitions, invariants and example files\<close>

text \<open>
  The count the specification gives for \<open>living_people\<close>: the individuals whose death
  record has no \<open>date\<close> key or an empty date.
\<close>

definition count_living :: "(string, individual) dict \<Rightarrow> nat" where
  "count_living inds =
     length (filter (\<lambda>person. date (death person) = None \<or> date (death person) = Some [])
       (dict_values inds))"

text \<open>
  The parents the specification gives for a list of family ids: for each id in order,
  the husband then the wife of that family, each only when non-empty, and nothing for
  an id that is not in the families map.
\<close>

definition parents_spec :: "(string, family) dict \<Rightarrow> string list \<Rightarrow> string list" where
  "parents_spec fams fids =
     concat (map (\<lambda>fid. case dict_get fams fid of
                          None \<Rightarrow> []
                        | Some family \<Rightarrow>
                            (if husband family \<noteq> [] then [husband family] else []) @
                            (if wife family \<noteq> [] then [wife family] else [])) fids)"

text \<open>
  The lines that \<open>_read_file\<close> leaves in \<open>lines\<close> for the list returned by \<open>readlines\<close>.
\<close>

definition normalize_lines :: "string list \<Rightarrow> string list" where
  "normalize_lines raw_lines = map py_strip (filter (\<lambda>line. py_strip line \<noteq> []) raw_lines)"

text \<open>
  A line that starts an individual record, with its identifier token: the line
  tokenizes with level 0 and its third part is \<open>INDI\<close>. Likewise for families.
\<close>

definition indi_line :: "string \<Rightarrow> string option" where
  "indi_line line =
     (case tokenize line of
        None \<Rightarrow> None
      | Some (level, tag, v, parts) \<Rightarrow>
          if level = 0 \<and> length parts \<ge> 3 \<and> parts ! 2 = ''INDI'' then Some tag else None)"

definition fam_line :: "string \<Rightarrow> string option" where
  "fam_line line =
     (case tokenize line of
        None \<Rightarrow> None
      | Some (level, tag, v, parts) \<Rightarrow>
          if level = 0 \<and> length parts \<ge> 3 \<and> parts ! 2 = ''FAM'' then Some tag else None)"

text \<open>
  The invariant of the loops: every committed record, and the record under
  construction, carries its key in its id field.
\<close>

definition ind_ids_ok :: "ind_state \<Rightarrow> bool" where
  "ind_ids_ok st \<longleftrightarrow>
     list_all (\<lambda>(k, r). ind_id r = k) (individuals_acc st) \<and>
     (case (current_individual st, current_record st) of
        (Some cid, Some r) \<Rightarrow> ind_id r = cid
      | _ \<Rightarrow> True)"

definition fam_ids_ok :: "fam_state \<Rightarrow> bool" where
  "fam_ids_ok st \<longleftrightarrow>
     list_all (\<lambda>(k, r). fam_id r = k) (families_acc st) \<and>
     (case (current_family st, current_fam_record st) of
        (Some cid, Some r) \<Rightarrow> fam_id r = cid
      | _ \<Rightarrow> True)"

text \<open>
  The non-empty identifiers of the record-start lines of a line sequence.
\<close>

definition indi_ids :: "string list \<Rightarrow> string set" where
  "indi_ids ls = {strip_indi_id tag | tag. \<exists>l \<in> set ls. indi_line l = Some tag \<and> strip_indi_id tag \<noteq> []}"

definition fam_ids :: "string list \<Rightarrow> string set" where
  "fam_ids ls = {strip_fam_id tag | tag. \<exists>l \<in> set ls. fam_line l = Some tag \<and> strip_fam_id tag \<noteq> []}"

text \<open>A line whose three fields are separated by tab characters.\<close>

definition tab_line :: string where
  "tab_line = ''0'' @ [CHR 0x09] @ ''@I1@'' @ [CHR 0x09] @ ''INDI''"

text \<open>
  A file of three individuals in a chain: family 1 lists individual 2 as child and is
  referenced by individual 1 as spouse, family 2 lists individual 3 and is referenced
  by individual 2. \<open>chain_individuals\<close> and \<open>chain_families\<close> are the maps \<open>parse\<close>
  returns for it.
\<close>

definition chain_lines :: "string list" where
  "chain_lines = [''0 @I1@ INDI'', ''1 FAMS @F1@'', ''0 @I2@ INDI'', ''1 FAMS @F2@'',
     ''0 @I3@ INDI'', ''0 @F1@ FAM'', ''1 CHIL @I2@'', ''0 @F2@ FAM'', ''1 CHIL @I3@'']"

definition chain_individuals :: "(string, individual) dict" where
  "chain_individuals =
     [(''1'', (new_individual ''1'')\<lparr>families_as_spouse := [''1''], parents := Some [],
                spouse := Some [], children := Some [''2'']\<rparr>),
      (''2'', (new_individual ''2'')\<lparr>families_as_spouse := [''2''], parents := Some [],
                spouse := Some [], children := Some [''3'']\<rparr>),
      (''3'', (new_individual ''3'')\<lparr>parents := Some [], spouse := Some [],
                children := Some []\<rparr>)]"

definition chain_families :: "(string, family) dict" where
  "chain_families =
     [(''1'', (new_family ''1'')\<lparr>fam_children := [''2'']\<rparr>),
      (''2'', (new_family ''2'')\<lparr>fam_children := [''3'']\<rparr>)]"

text \<open>The individuals map of a file with one parent and one child.\<close>

definition cycle_individuals :: "(string, individual) dict" where
  "cycle_individuals =
     [(''1'', (new_individual ''1'')\<lparr>families_as_spouse := [''1''], parents := Some [],
                spouse := Some [], children := Some [''2'']\<rparr>),
      (''2'', (new_individual ''2'')\<lparr>families_as_child := [''1''], parents := Some [''1''],
                spouse := Some [], children := Some []\<rparr>)]"

section \<open>Statistics: living people\<close>

lemma living_people_step:
  "living_people (stats_step st person) =
     living_people st +
     (if date (death person) = None \<or> date (death person) = Some [] then 1 else 0)"
  by (simp add: stats_step_def Let_def truthy_def split: option.splits)

lemma living_people_foldl:
  "living_people (foldl stats_step st ps) =
     living_people st +
     length (filter (\<lambda>person. date (death person) = None \<or> date (death person) = Some []) ps)"
  by (induction ps arbitrary: st) (simp_all add: living_people_step)

text \<open>
  C7. For every model, the \<open>living_people\<close> field returned by \<open>get_statistics\<close> is the
  number of individuals whose death record has no \<open>date\<close> key or whose death date is
  the empty string.
\<close>

theorem living_people_count:
  "living_people (get_statistics inds fams) = count_living inds"
  by (simp add: get_statistics_def count_living_def living_people_foldl)

section \<open>Relationship resolution: parents\<close>

lemma add_parents_foldl:
  "foldl (add_parents fams) acc fids = acc @ parents_spec fams fids"
  by (induction fids arbitrary: acc)
     (simp_all add: parents_spec_def add_parents_def Let_def split: option.splits)

lemma parents_spec_nonempty: "[] \<notin> set (parents_spec fams fids)"
  by (auto simp: parents_spec_def split: option.splits if_splits)

lemma resolve_entry:
  "(iid, p) \<in> set (resolve_relationships inds fams) \<Longrightarrow>
     \<exists>q. (iid, q) \<in> set inds \<and> p = clean_up (resolve_one fams iid q)"
  by (auto simp: resolve_relationships_def)

lemma filter_nonempty_id: "[] \<notin> set xs \<Longrightarrow> filter (\<lambda>p. p \<noteq> []) xs = xs"
  by (induction xs) auto

lemma clean_resolve_parents:
  "parents (clean_up (resolve_one fams iid q)) = Some (parents_spec fams (families_as_child q))"
  by (simp add: clean_up_def resolve_one_def Let_def add_parents_foldl
        filter_nonempty_id parents_spec_nonempty)

lemma clean_resolve_fac:
  "families_as_child (clean_up (resolve_one fams iid q)) = families_as_child q"
  by (simp add: clean_up_def resolve_one_def Let_def)

text \<open>
  C4. After the relationship pass every individual's \<open>parents\<close> list is the
  concatenation, over its \<open>families_as_child\<close> ids in order, of the husband then the
  wife of the referenced family (each only when non-empty); an id that is not in the
  families map contributes nothing and raises nothing.
\<close>

theorem resolved_parents:
  "\<forall>(iid, person) \<in> set (resolve_relationships inds fams).
      parents person = Some (parents_spec fams (families_as_child person))"
  by (auto dest!: resolve_entry simp: clean_resolve_parents clean_resolve_fac)

theorem resolved_parents_witness:
  "(''3'', (new_individual ''3'')\<lparr>families_as_child := [''9'', ''1''],
        parents := Some [''1'', ''2''], spouse := Some [], children := Some []\<rparr>)
     \<in> set (resolve_relationships
          [(''3'', (new_individual ''3'')\<lparr>families_as_child := [''9'', ''1'']\<rparr>)]
          [(''1'', (new_family ''1'')\<lparr>husband := ''1'', wife := ''2'', fam_children := [''3'']\<rparr>)])
   \<and> parents_spec
        [(''1'', (new_family ''1'')\<lparr>husband := ''1'', wife := ''2'', fam_children := [''3'']\<rparr>)]
        [''9'', ''1''] = [''1'', ''2'']"
  using resolved_parents
    [of "[(''3'', (new_individual ''3'')\<lparr>families_as_child := [''9'', ''1'']\<rparr>)]"
        "[(''1'', (new_family ''1'')\<lparr>husband := ''1'', wife := ''2'', fam_children := [''3'']\<rparr>)]"]
  by (simp add: resolve_relationships_def resolve_one_def clean_up_def add_parents_def
        add_spouse_children_def dict_get_def new_individual_def new_family_def
        parents_spec_def empty_event_def)

section \<open>Stripping\<close>

lemma dropWhile_fix: "xs = [] \<or> \<not> P (hd xs) \<Longrightarrow> dropWhile P xs = xs"
  by (cases xs) auto

lemma last_dropWhile: "dropWhile P xs \<noteq> [] \<Longrightarrow> last (dropWhile P xs) = last xs"
  by (induction xs) (auto split: if_splits)

lemma strip_chars_head:
  "strip_chars P s = [] \<or> \<not> P (hd (strip_chars P s))"
proof (cases "strip_chars P s = []")
  case True
  then show ?thesis by simp
next
  case False
  let ?t = "dropWhile P s"
  let ?u = "dropWhile P (rev ?t)"
  from False have u: "?u \<noteq> []" by (simp add: strip_chars_def)
  then have t: "?t \<noteq> []" by (cases "dropWhile P s = []") simp_all
  have "hd (strip_chars P s) = last ?u"
    using u by (simp add: strip_chars_def hd_rev)
  also have "\<dots> = last (rev ?t)" using u by (rule last_dropWhile)
  also have "\<dots> = hd ?t" using t by (simp add: last_rev)
  finally have "hd (strip_chars P s) = hd ?t" .
  moreover have "\<not> P (hd ?t)" using t by (rule hd_dropWhile)
  ultimately show ?thesis by simp
qed

lemma strip_chars_last:
  "strip_chars P s = [] \<or> \<not> P (last (strip_chars P s))"
proof (cases "strip_chars P s = []")
  case True
  then show ?thesis by simp
next
  case False
  let ?u = "dropWhile P (rev (dropWhile P s))"
  from False have u: "?u \<noteq> []" by (simp add: strip_chars_def)
  have "last (strip_chars P s) = hd ?u" using u by (simp add: strip_chars_def last_rev)
  moreover have "\<not> P (hd ?u)" using u by (rule hd_dropWhile)
  ultimately show ?thesis by simp
qed

lemma strip_chars_fix:
  assumes "s = [] \<or> (\<not> P (hd s) \<and> \<not> P (last s))"
  shows "strip_chars P s = s"
proof (cases "s = []")
  case True
  then show ?thesis by (simp add: strip_chars_def)
next
  case False
  with assms have h: "\<not> P (hd s)" and l: "\<not> P (last s)" by auto
  from h False have 1: "dropWhile P s = s" by (simp add: dropWhile_fix)
  from l False have "\<not> P (hd (rev s))" by (simp add: hd_rev)
  then have 2: "dropWhile P (rev s) = rev s" by (simp add: dropWhile_fix)
  show ?thesis by (simp add: strip_chars_def 1 2)
qed

lemma strip_chars_idem: "strip_chars P (strip_chars P s) = strip_chars P s"
  using strip_chars_head [of P s] strip_chars_last [of P s]
  by (intro strip_chars_fix) auto

lemma py_strip_idem: "py_strip (py_strip s) = py_strip s"
  by (simp add: py_strip_def strip_chars_idem)

lemma tokenize_strip: "tokenize (py_strip l) = tokenize l"
  by (simp add: tokenize_def py_strip_idem)

lemma tokenize_blank: "py_strip l = [] \<Longrightarrow> tokenize l = None"
  by (simp add: tokenize_def)

section \<open>Dictionaries\<close>

lemma dict_set_key_list:
  "dict_keys (dict_set k v d) =
     (if k \<in> set (dict_keys d) then dict_keys d else dict_keys d @ [k])"
  by (induction d) (force simp: dict_keys_def)+

lemma dict_set_keys: "set (dict_keys (dict_set k v d)) = insert k (set (dict_keys d))"
  by (auto simp: dict_set_key_list)

lemma dict_set_distinct: "distinct (dict_keys d) \<Longrightarrow> distinct (dict_keys (dict_set k v d))"
  by (simp add: dict_set_key_list)

lemma dict_set_entries: "x \<in> set (dict_set k v d) \<Longrightarrow> x = (k, v) \<or> x \<in> set d"
  by (induction d) (auto split: if_splits)

section \<open>Steps of the individual loop\<close>

lemma level1_frame:
  "current_individual (ind_level1 st tag v) = current_individual st \<and>
   individuals_acc (ind_level1 st tag v) = individuals_acc st \<and>
   map_option ind_id (current_record (ind_level1 st tag v)) = map_option ind_id (current_record st)"
  by (simp add: ind_level1_def upd_record_def Let_def option.map_comp comp_def)

lemma level2_frame:
  "current_individual (ind_level2 st sec tag v) = current_individual st \<and>
   individuals_acc (ind_level2 st sec tag v) = individuals_acc st \<and>
   map_option ind_id (current_record (ind_level2 st sec tag v)) = map_option ind_id (current_record st)"
  by (cases sec) (simp_all add: ind_level2_def upd_record_def option.map_comp comp_def)

text \<open>What a step does to the three things a commit looks at.\<close>

lemma ind_step_start:
  "indi_line line = Some tag \<Longrightarrow>
   ind_step st line =
     \<lparr>current_individual = Some (strip_indi_id tag),
      current_record = Some (new_individual (strip_indi_id tag)),
      current_section = None, individuals_acc = ind_commit st\<rparr>"
  by (auto simp: indi_line_def ind_step_def Let_def split: option.splits if_splits)

lemma ind_step_other:
  "indi_line line = None \<Longrightarrow>
   current_individual (ind_step st line) = current_individual st \<and>
   individuals_acc (ind_step st line) = individuals_acc st \<and>
   map_option ind_id (current_record (ind_step st line)) = map_option ind_id (current_record st)"
  by (auto simp: indi_line_def ind_step_def level1_frame level2_frame
      split: option.splits if_splits)

lemma ind_step_falsy:
  "indi_line line = None \<Longrightarrow> \<not> truthy (current_individual st) \<Longrightarrow> ind_step st line = st"
  by (auto simp: indi_line_def ind_step_def split: option.splits if_splits)

section \<open>The structure of \<open>parse\<close>\<close>

lemma parse_success:
  "parse (Inr raw) now (GEDCOMParser f) =
     (let ls = normalize_lines raw;
          fams = extract_families ls [];
          inds = resolve_relationships (extract_individuals ls []) fams
      in (Inr \<lparr>res_individuals = inds, res_families = fams,
               res_summary = \<lparr>total_individuals = length inds, total_families = length fams,
                              parsed_at = now, error = None\<rparr>\<rparr>,
          \<lparr>gedcom_file = f, individuals = inds, families = fams, lines = ls\<rparr>))"
  by (simp add: parse_def parse_with_def parse_body_def seq_def try_except_def read_file_def
        extract_individuals_stage_def extract_families_stage_def
        resolve_relationships_stage_def GEDCOMParser_def normalize_lines_def Let_def)

lemma extract_individuals_Nil: "extract_individuals [] [] = []"
  by (simp add: extract_individuals_def ind_init_def ind_commit_def)

lemma extract_families_Nil: "extract_families [] [] = []"
  by (simp add: extract_families_def fam_init_def fam_commit_def)

lemma parse_read_failure:
  "parse (Inl e) now (GEDCOMParser f) =
     (Inr \<lparr>res_individuals = [], res_families = [],
           res_summary = \<lparr>total_individuals = 0, total_families = 0,
                          parsed_at = now, error = None\<rparr>\<rparr>,
      \<lparr>gedcom_file = f, individuals = [], families = [], lines = []\<rparr>)"
  by (simp add: parse_def parse_with_def parse_body_def seq_def try_except_def read_file_def
        extract_individuals_stage_def extract_families_stage_def
        resolve_relationships_stage_def GEDCOMParser_def
        extract_individuals_Nil extract_families_Nil resolve_relationships_def)

lemma parse_with_returns:
  "\<exists>r. fst (parse_with rf ei ef rr now s) = Inr r"
  by (auto simp: parse_with_def seq_def try_except_def split: prod.splits sum.splits exn.splits)

lemma parse_with_fallback:
  "fst (parse_body rf ei ef rr s) = Inl (Exception msg) \<Longrightarrow>
   fst (parse_with rf ei ef rr now s) =
     Inr \<lparr>res_individuals = [], res_families = [],
          res_summary = \<lparr>total_individuals = 0, total_families = 0,
                         parsed_at = now, error = Some msg\<rparr>\<rparr>"
  by (auto simp: parse_with_def seq_def try_except_def split: prod.splits sum.splits exn.splits)

lemma parse_state:
  "parse rd now s =
     (let ls = (case rd of Inl e \<Rightarrow> [] | Inr raw \<Rightarrow> normalize_lines raw);
          fams = extract_families ls (families s);
          inds = resolve_relationships (extract_individuals ls (individuals s)) fams
      in (Inr \<lparr>res_individuals = inds, res_families = fams,
               res_summary = \<lparr>total_individuals = length inds, total_families = length fams,
                              parsed_at = now, error = None\<rparr>\<rparr>,
          s\<lparr>lines := ls, individuals := inds, families := fams\<rparr>))"
  by (cases rd)
     (simp_all add: parse_def parse_with_def parse_body_def seq_def try_except_def read_file_def
        extract_individuals_stage_def extract_families_stage_def
        resolve_relationships_stage_def normalize_lines_def Let_def)

lemma parse_read_failure_zero_lines: "parse (Inl e) now s = parse (Inr []) now s"
  by (simp add: parse_state normalize_lines_def)

lemma parse_read_failure_empty:
  "individuals s = [] \<Longrightarrow> families s = [] \<Longrightarrow>
   parse (Inl e) now s =
     (Inr \<lparr>res_individuals = [], res_families = [],
           res_summary = \<lparr>total_individuals = 0, total_families = 0,
                          parsed_at = now, error = None\<rparr>\<rparr>,
      s\<lparr>lines := []\<rparr>)"
  by (simp add: parse_state extract_individuals_Nil extract_families_Nil
        resolve_relationships_def)

text \<open>
  C6 (amended). \<open>parse\<close> never lets an exception reach its caller, whatever its methods
  do. When reading the file fails, \<open>parse\<close> behaves in every parser state as on a file
  without lines: the handler empties \<open>lines\<close>. On a parser whose maps are empty when
  \<open>parse\<close> is called, as after construction, the result then has empty maps, totals of
  zero and no \<open>error\<close> key. When the block of the outer \<open>try\<close> raises, the result has
  empty maps and the message under \<open>error\<close>.
\<close>

theorem parse_never_raises:
  "(\<exists>r. fst (parse_with rf ei ef rr now s) = Inr r)
   \<and> (\<exists>r. fst (parse rd now s) = Inr r)
   \<and> parse (Inl e) now s = parse (Inr []) now s
   \<and> lines (snd (parse (Inl e) now s)) = []
   \<and> (individuals s = [] \<and> families s = [] \<longrightarrow>
        parse (Inl e) now s =
          (Inr \<lparr>res_individuals = [], res_families = [],
                res_summary = \<lparr>total_individuals = 0, total_families = 0,
                               parsed_at = now, error = None\<rparr>\<rparr>,
           s\<lparr>lines := []\<rparr>))
   \<and> (fst (parse_body rf ei ef rr s) = Inl (Exception msg) \<longrightarrow>
        fst (parse_with rf ei ef rr now s) =
          Inr \<lparr>res_individuals = [], res_families = [],
               res_summary = \<lparr>total_individuals = 0, total_families = 0,
                              parsed_at = now, error = Some msg\<rparr>\<rparr>)"
proof -
  have 1: "\<exists>r. fst (parse_with rf ei ef rr now s) = Inr r" by (rule parse_with_returns)
  have 2: "\<exists>r. fst (parse rd now s) = Inr r" unfolding parse_def by (rule parse_with_returns)
  have 3: "parse (Inl e) now s = parse (Inr []) now s" by (rule parse_read_failure_zero_lines)
  have 4: "lines (snd (parse (Inl e) now s)) = []" by (simp add: parse_state Let_def)
  from 1 2 3 4 parse_read_failure_empty [of s e now] parse_with_fallback [of rf ei ef rr s msg now]
  show ?thesis by blast
qed

text \<open>
  C6 (amended) on a parser with empty maps and a line left in \<open>lines\<close>, and on a family
  extraction that raises.
\<close>

theorem parse_never_raises_witness:
  "fst (parse (Inl (Exception ''no file'')) ''t''
         \<lparr>gedcom_file = ''f'', individuals = [], families = [], lines = [''0 @I1@ INDI'']\<rparr>) =
     Inr \<lparr>res_individuals = [], res_families = [],
          res_summary = \<lparr>total_individuals = 0, total_families = 0,
                         parsed_at = ''t'', error = None\<rparr>\<rparr>
   \<and> lines (snd (parse (Inl (Exception ''no file'')) ''t''
         \<lparr>gedcom_file = ''f'', individuals = [], families = [], lines = [''0 @I1@ INDI'']\<rparr>)) = []
   \<and> fst (parse_body (read_file (Inl (Exception ''no file''))) extract_individuals_stage
          (\<lambda>s. (Inl (Exception ''boom''), s)) resolve_relationships_stage (GEDCOMParser ''f''))
     = Inl (Exception ''boom'')
   \<and> fst (parse_with (read_file (Inl (Exception ''no file''))) extract_individuals_stage
          (\<lambda>s. (Inl (Exception ''boom''), s)) resolve_relationships_stage ''t'' (GEDCOMParser ''f''))
     = Inr \<lparr>res_individuals = [], res_families = [],
            res_summary = \<lparr>total_individuals = 0, total_families = 0,
                           parsed_at = ''t'', error = Some ''boom''\<rparr>\<rparr>"
proof -
  let ?s0 = "\<lparr>gedcom_file = ''f'', individuals = [], families = [], lines = [''0 @I1@ INDI'']\<rparr>"
  have e: "individuals ?s0 = [] \<and> families ?s0 = []" by simp
  have a: "parse (Inl (Exception ''no file'')) ''t'' ?s0 =
          (Inr \<lparr>res_individuals = [], res_families = [],
                res_summary = \<lparr>total_individuals = 0, total_families = 0,
                               parsed_at = ''t'', error = None\<rparr>\<rparr>,
           ?s0\<lparr>lines := []\<rparr>)"
    using e parse_never_raises [where s = ?s0 and e = "Exception ''no file''" and now = "''t''"]
    by blast
  have h: "fst (parse_body (read_file (Inl (Exception ''no file''))) extract_individuals_stage
          (\<lambda>s. (Inl (Exception ''boom''), s)) resolve_relationships_stage (GEDCOMParser ''f''))
     = Inl (Exception ''boom'')"
    by (simp add: parse_body_def seq_def try_except_def read_file_def
          extract_individuals_stage_def)
  from h parse_never_raises [where rf = "read_file (Inl (Exception ''no file''))"
      and ei = extract_individuals_stage and ef = "\<lambda>s. (Inl (Exception ''boom''), s)"
      and rr = resolve_relationships_stage and now = "''t''" and s = "GEDCOMParser ''f''"
      and msg = "''boom''"]
  have b: "fst (parse_with (read_file (Inl (Exception ''no file''))) extract_individuals_stage
          (\<lambda>s. (Inl (Exception ''boom''), s)) resolve_relationships_stage ''t'' (GEDCOMParser ''f''))
     = Inr \<lparr>res_individuals = [], res_families = [],
            res_summary = \<lparr>total_individuals = 0, total_families = 0,
                           parsed_at = ''t'', error = Some ''boom''\<rparr>\<rparr>"
    by blast
  from a h b show ?thesis by simp
qed

section \<open>Searching\<close>

lemma py_in_trans: "py_in a b \<Longrightarrow> py_in b c \<Longrightarrow> py_in a c"
  unfolding py_in_def by (rule sublist_order.order_trans)

lemma filter_map_subseq:
  "(\<And>x. P x \<Longrightarrow> Q x) \<Longrightarrow> subseq (map f (filter P xs)) (map f (filter Q xs))"
proof -
  assume imp: "\<And>x. P x \<Longrightarrow> Q x"
  have "filter P xs = filter P (filter Q xs)"
    using imp by (induction xs) auto
  then have "subseq (filter P xs) (filter Q xs)"
    by (metis subseq_filter_left)
  then show ?thesis
    by (rule subseq_map)
qed

text \<open>
  C10. When the lowercased \<open>q1\<close> occurs in the lowercased \<open>q2\<close>, everything \<open>find_person\<close>
  and \<open>search_by_location\<close> return for \<open>q2\<close> they return for \<open>q1\<close>, in the same order;
  for the empty query both return every individual in insertion order.
\<close>

theorem search_antitone:
  assumes "py_in (py_lower q1) (py_lower q2)"
  shows "subseq (find_person inds q2) (find_person inds q1)
       \<and> set (find_person inds q2) \<subseteq> set (find_person inds q1)
       \<and> subseq (search_by_location inds q2) (search_by_location inds q1)
       \<and> set (search_by_location inds q2) \<subseteq> set (search_by_location inds q1)
       \<and> find_person inds [] = dict_values inds
       \<and> search_by_location inds [] = dict_values inds"
proof -
  have fp: "subseq (find_person inds q2) (find_person inds q1)"
    unfolding find_person_def Let_def
    by (rule filter_map_subseq) (auto intro: py_in_trans [OF assms])
  have sl: "subseq (search_by_location inds q2) (search_by_location inds q1)"
    unfolding search_by_location_def Let_def
    by (rule filter_map_subseq) (auto intro: py_in_trans [OF assms])
  have e1: "find_person inds [] = dict_values inds"
    by (simp add: find_person_def py_lower_def py_in_def dict_values_def)
  have e2: "search_by_location inds [] = dict_values inds"
    by (simp add: search_by_location_def py_lower_def py_in_def dict_values_def)
  have fps: "set (find_person inds q2) \<subseteq> set (find_person inds q1)"
    unfolding find_person_def Let_def by (auto intro: py_in_trans [OF assms])
  have sls: "set (search_by_location inds q2) \<subseteq> set (search_by_location inds q1)"
    unfolding search_by_location_def Let_def by (auto intro: py_in_trans [OF assms])
  from fp fps sl sls e1 e2 show ?thesis
    by blast
qed

theorem search_antitone_witness:
  "py_in (py_lower ''MI'') (py_lower ''Smith'')
   \<and> subseq
        (find_person [(''1'', (new_individual ''1'')\<lparr>name := ''John SMITH''\<rparr>),
                      (''2'', (new_individual ''2'')\<lparr>name := ''Ann Lee''\<rparr>)] ''Smith'')
        (find_person [(''1'', (new_individual ''1'')\<lparr>name := ''John SMITH''\<rparr>),
                      (''2'', (new_individual ''2'')\<lparr>name := ''Ann Lee''\<rparr>)] ''MI'')"
proof -
  have h: "py_in (py_lower ''MI'') (py_lower ''Smith'')"
    by code_simp
  from h search_antitone [OF h] show ?thesis
    by blast
qed

section \<open>Steps of the family loop\<close>

lemma fam_level1_frame:
  "current_family (fam_level1 st tag v) = current_family st \<and>
   families_acc (fam_level1 st tag v) = families_acc st \<and>
   map_option fam_id (current_fam_record (fam_level1 st tag v)) =
     map_option fam_id (current_fam_record st)"
  by (simp add: fam_level1_def upd_fam_record_def Let_def option.map_comp comp_def)

lemma fam_level2_frame:
  "current_family (fam_level2 st tag v) = current_family st \<and>
   families_acc (fam_level2 st tag v) = families_acc st \<and>
   map_option fam_id (current_fam_record (fam_level2 st tag v)) =
     map_option fam_id (current_fam_record st)"
  by (simp add: fam_level2_def upd_fam_record_def option.map_comp comp_def)

lemma fam_step_start:
  "fam_line line = Some tag \<Longrightarrow>
   fam_step st line =
     \<lparr>current_family = Some (strip_fam_id tag),
      current_fam_record = Some (new_family (strip_fam_id tag)),
      families_acc = fam_commit st\<rparr>"
  by (auto simp: fam_line_def fam_step_def Let_def split: option.splits if_splits)

lemma fam_step_other:
  "fam_line line = None \<Longrightarrow>
   current_family (fam_step st line) = current_family st \<and>
   families_acc (fam_step st line) = families_acc st \<and>
   map_option fam_id (current_fam_record (fam_step st line)) =
     map_option fam_id (current_fam_record st)"
  by (auto simp: fam_line_def fam_step_def fam_level1_frame fam_level2_frame
      split: option.splits if_splits)

lemma fam_step_falsy:
  "fam_line line = None \<Longrightarrow> \<not> truthy (current_family st) \<Longrightarrow> fam_step st line = st"
  by (auto simp: fam_line_def fam_step_def split: option.splits if_splits)

section \<open>Keys and id fields\<close>

lemma list_all_dict_set:
  "list_all P d \<Longrightarrow> P (k, v) \<Longrightarrow> list_all P (dict_set k v d)"
  by (induction d) auto

lemma ind_commit_ok: "ind_ids_ok st \<Longrightarrow> list_all (\<lambda>(k, r). ind_id r = k) (ind_commit st)"
  by (auto simp: ind_ids_ok_def ind_commit_def intro: list_all_dict_set split: option.splits)

lemma fam_commit_ok: "fam_ids_ok st \<Longrightarrow> list_all (\<lambda>(k, r). fam_id r = k) (fam_commit st)"
  by (auto simp: fam_ids_ok_def fam_commit_def intro: list_all_dict_set split: option.splits)

lemma ind_step_ok: "ind_ids_ok st \<Longrightarrow> ind_ids_ok (ind_step st line)"
proof (cases "indi_line line")
  case None
  assume ok: "ind_ids_ok st"
  note fr = ind_step_other [OF None, of st]
  show ?thesis
  proof (cases "current_record st")
    case None
    with fr have "current_record (ind_step st line) = None" by simp
    with ok fr show ?thesis by (simp add: ind_ids_ok_def split: option.splits)
  next
    case (Some r)
    with fr obtain r' where r': "current_record (ind_step st line) = Some r'" "ind_id r' = ind_id r"
      by (cases "current_record (ind_step st line)") auto
    with ok fr Some show ?thesis by (simp add: ind_ids_ok_def split: option.splits)
  qed
next
  case (Some tag)
  assume ok: "ind_ids_ok st"
  show ?thesis
    by (simp add: ind_step_start [OF Some] ind_ids_ok_def ind_commit_ok [OF ok] new_individual_def)
qed

lemma fam_step_ok: "fam_ids_ok st \<Longrightarrow> fam_ids_ok (fam_step st line)"
proof (cases "fam_line line")
  case None
  assume ok: "fam_ids_ok st"
  note fr = fam_step_other [OF None, of st]
  show ?thesis
  proof (cases "current_fam_record st")
    case None
    with fr have "current_fam_record (fam_step st line) = None" by simp
    with ok fr show ?thesis by (simp add: fam_ids_ok_def split: option.splits)
  next
    case (Some r)
    with fr obtain r' where r': "current_fam_record (fam_step st line) = Some r'" "fam_id r' = fam_id r"
      by (cases "current_fam_record (fam_step st line)") auto
    with ok fr Some show ?thesis by (simp add: fam_ids_ok_def split: option.splits)
  qed
next
  case (Some tag)
  assume ok: "fam_ids_ok st"
  show ?thesis
    by (simp add: fam_step_start [OF Some] fam_ids_ok_def fam_commit_ok [OF ok] new_family_def)
qed

lemma ind_foldl_ok: "ind_ids_ok st \<Longrightarrow> ind_ids_ok (foldl ind_step st ls)"
  by (induction ls arbitrary: st) (simp_all add: ind_step_ok)

lemma fam_foldl_ok: "fam_ids_ok st \<Longrightarrow> fam_ids_ok (foldl fam_step st ls)"
  by (induction ls arbitrary: st) (simp_all add: fam_step_ok)

lemma extract_individuals_ids:
  "list_all (\<lambda>(k, r). ind_id r = k) (extract_individuals ls [])"
  unfolding extract_individuals_def
  by (rule ind_commit_ok, rule ind_foldl_ok) (simp add: ind_ids_ok_def ind_init_def)

lemma extract_families_ids:
  "list_all (\<lambda>(k, r). fam_id r = k) (extract_families ls [])"
  unfolding extract_families_def
  by (rule fam_commit_ok, rule fam_foldl_ok) (simp add: fam_ids_ok_def fam_init_def)

lemma resolve_keys: "dict_keys (resolve_relationships inds fams) = dict_keys inds"
  by (induction inds) (auto simp: resolve_relationships_def dict_keys_def)

lemma resolve_ids:
  "map (\<lambda>(k, r). ind_id r) (resolve_relationships inds fams) = map (\<lambda>(k, r). ind_id r) inds"
  by (induction inds) (auto simp: resolve_relationships_def clean_up_def resolve_one_def Let_def)

lemma resolve_ids_ok:
  "list_all (\<lambda>(k, r). ind_id r = k) inds \<Longrightarrow>
   list_all (\<lambda>(k, r). ind_id r = k) (resolve_relationships inds fams)"
  by (induction inds) (auto simp: resolve_relationships_def clean_up_def resolve_one_def Let_def)

text \<open>
  C9. In the structure returned by \<open>parse\<close> every entry of the individuals map and of
  the families map has its key in its id field; the relationship pass keeps the keys
  and the id fields as they are.
\<close>

theorem ids_equal_keys:
  "(fst (parse rd now (GEDCOMParser f)) = Inr r \<longrightarrow>
      (\<forall>(k, i) \<in> set (res_individuals r). ind_id i = k) \<and>
      (\<forall>(k, fm) \<in> set (res_families r). fam_id fm = k))
   \<and> dict_keys (resolve_relationships inds fams) = dict_keys inds
   \<and> map (\<lambda>(k, i). ind_id i) (resolve_relationships inds fams) = map (\<lambda>(k, i). ind_id i) inds"
proof -
  have "(\<forall>(k, i) \<in> set (res_individuals r). ind_id i = k) \<and>
        (\<forall>(k, fm) \<in> set (res_families r). fam_id fm = k)"
    if p: "fst (parse rd now (GEDCOMParser f)) = Inr r"
  proof (cases rd)
    case (Inl e)
    with p show ?thesis by (auto simp: parse_read_failure)
  next
    case (Inr raw)
    let ?ls = "normalize_lines raw"
    from p Inr have r: "res_individuals r =
        resolve_relationships (extract_individuals ?ls []) (extract_families ?ls [])"
      "res_families r = extract_families ?ls []"
      by (auto simp: parse_success Let_def)
    have "list_all (\<lambda>(k, i). ind_id i = k) (res_individuals r)"
      unfolding r by (rule resolve_ids_ok) (rule extract_individuals_ids)
    moreover have "list_all (\<lambda>(k, fm). fam_id fm = k) (res_families r)"
      unfolding r by (rule extract_families_ids)
    ultimately show ?thesis by (simp add: list_all_iff)
  qed
  then show ?thesis by (simp add: resolve_keys resolve_ids)
qed

section \<open>Keys of the extracted maps\<close>

lemma indi_ids_simps:
  "indi_ids [] = {}"
  "indi_ids (l # ls) =
     (case indi_line l of
        None \<Rightarrow> {}
      | Some tag \<Rightarrow> if strip_indi_id tag \<noteq> [] then {strip_indi_id tag} else {}) \<union> indi_ids ls"
  by (auto simp: indi_ids_def split: option.splits)

lemma ind_commit_other:
  assumes "indi_line line = None"
  shows "dict_keys (ind_commit (ind_step st line)) = dict_keys (ind_commit st)"
proof -
  note fr = ind_step_other [OF assms, of st]
  show ?thesis
  proof (cases "current_record st")
    case None
    with fr have "current_record (ind_step st line) = None" by simp
    with None fr show ?thesis by (simp add: ind_commit_def split: option.splits)
  next
    case (Some r)
    with fr obtain r' where "current_record (ind_step st line) = Some r'"
      by (cases "current_record (ind_step st line)") auto
    with Some fr show ?thesis
      by (simp add: ind_commit_def dict_set_key_list split: option.splits)
  qed
qed

lemma ind_commit_start:
  assumes "indi_line line = Some tag"
  shows "ind_commit (ind_step st line) =
     (if strip_indi_id tag \<noteq> []
      then dict_set (strip_indi_id tag) (new_individual (strip_indi_id tag)) (ind_commit st)
      else ind_commit st)"
  by (simp add: ind_step_start [OF assms] ind_commit_def)

lemma ind_foldl_keys:
  "set (dict_keys (ind_commit (foldl ind_step st ls))) =
     set (dict_keys (ind_commit st)) \<union> indi_ids ls"
proof (induction ls arbitrary: st)
  case Nil
  then show ?case by (simp add: indi_ids_simps)
next
  case (Cons l ls)
  show ?case
  proof (cases "indi_line l")
    case None
    then show ?thesis
      by (simp add: Cons.IH ind_commit_other indi_ids_simps)
  next
    case (Some tag)
    then show ?thesis
      by (auto simp: Cons.IH ind_commit_start dict_set_keys indi_ids_simps)
  qed
qed

lemma ind_foldl_distinct:
  "distinct (dict_keys (ind_commit st)) \<Longrightarrow>
   distinct (dict_keys (ind_commit (foldl ind_step st ls)))"
proof (induction ls arbitrary: st)
  case Nil
  then show ?case by simp
next
  case (Cons l ls)
  have "distinct (dict_keys (ind_commit (ind_step st l)))"
  proof (cases "indi_line l")
    case None
    with Cons.prems show ?thesis by (simp add: ind_commit_other)
  next
    case (Some tag)
    with Cons.prems show ?thesis by (simp add: ind_commit_start dict_set_distinct)
  qed
  then show ?case by (simp add: Cons.IH)
qed

lemma extract_individuals_keys:
  "set (dict_keys (extract_individuals ls [])) = indi_ids ls"
  by (simp add: extract_individuals_def ind_foldl_keys)
     (simp add: ind_init_def ind_commit_def dict_keys_def)

lemma extract_individuals_distinct:
  "distinct (dict_keys (extract_individuals ls []))"
  unfolding extract_individuals_def
  by (rule ind_foldl_distinct) (simp add: ind_init_def ind_commit_def dict_keys_def)

lemma indi_line_strip: "indi_line (py_strip l) = indi_line l"
  by (simp add: indi_line_def tokenize_strip)

lemma indi_line_blank: "py_strip l = [] \<Longrightarrow> indi_line l = None"
  by (simp add: indi_line_def tokenize_blank)

lemma indi_ids_normalize: "indi_ids (normalize_lines raw) = indi_ids raw"
proof (induction raw)
  case Nil
  then show ?case by (simp add: normalize_lines_def)
next
  case (Cons l raw)
  then have IH: "indi_ids (map py_strip (filter (\<lambda>line. py_strip line \<noteq> []) raw)) = indi_ids raw"
    by (simp add: normalize_lines_def)
  show ?case
    by (simp add: normalize_lines_def indi_ids_simps IH indi_line_strip indi_line_blank)
qed

text \<open>
  C2 (amended). The keys of the individuals map returned by \<open>parse\<close> are exactly the
  non-empty identifiers obtained, by removing every \<open>@\<close> and \<open>I\<close>, from the second field
  of the lines that split at single spaces into an integer level 0, a second field and
  the remainder \<open>INDI\<close>; each such identifier has exactly one entry.
\<close>

theorem individuals_keys:
  "fst (parse (Inr raw) now (GEDCOMParser f)) = Inr r \<Longrightarrow>
     set (dict_keys (res_individuals r)) = indi_ids raw
     \<and> distinct (dict_keys (res_individuals r))"
  by (auto simp: parse_success Let_def resolve_keys extract_individuals_keys
        extract_individuals_distinct indi_ids_normalize)

lemma fam_ids_simps:
  "fam_ids [] = {}"
  "fam_ids (l # ls) =
     (case fam_line l of
        None \<Rightarrow> {}
      | Some tag \<Rightarrow> if strip_fam_id tag \<noteq> [] then {strip_fam_id tag} else {}) \<union> fam_ids ls"
  by (auto simp: fam_ids_def split: option.splits)

lemma fam_commit_other:
  assumes "fam_line line = None"
  shows "dict_keys (fam_commit (fam_step st line)) = dict_keys (fam_commit st)"
proof -
  note fr = fam_step_other [OF assms, of st]
  show ?thesis
  proof (cases "current_fam_record st")
    case None
    with fr have "current_fam_record (fam_step st line) = None" by simp
    with None fr show ?thesis by (simp add: fam_commit_def split: option.splits)
  next
    case (Some r)
    with fr obtain r' where "current_fam_record (fam_step st line) = Some r'"
      by (cases "current_fam_record (fam_step st line)") auto
    with Some fr show ?thesis
      by (simp add: fam_commit_def dict_set_key_list split: option.splits)
  qed
qed

lemma fam_commit_start:
  assumes "fam_line line = Some tag"
  shows "fam_commit (fam_step st line) =
     (if strip_fam_id tag \<noteq> []
      then dict_set (strip_fam_id tag) (new_family (strip_fam_id tag)) (fam_commit st)
      else fam_commit st)"
  by (simp add: fam_step_start [OF assms] fam_commit_def)

lemma fam_foldl_keys:
  "set (dict_keys (fam_commit (foldl fam_step st ls))) =
     set (dict_keys (fam_commit st)) \<union> fam_ids ls"
proof (induction ls arbitrary: st)
  case Nil
  then show ?case by (simp add: fam_ids_simps)
next
  case (Cons l ls)
  show ?case
  proof (cases "fam_line l")
    case None
    then show ?thesis
      by (simp add: Cons.IH fam_commit_other fam_ids_simps)
  next
    case (Some tag)
    then show ?thesis
      by (auto simp: Cons.IH fam_commit_start dict_set_keys fam_ids_simps)
  qed
qed

lemma extract_families_keys:
  "set (dict_keys (extract_families ls [])) = fam_ids ls"
  by (simp add: extract_families_def fam_foldl_keys)
     (simp add: fam_init_def fam_commit_def dict_keys_def)

section \<open>Records with an empty id\<close>

lemma strip_indi_id_empty: "set tag \<subseteq> {CHR ''@'', CHR ''I''} \<Longrightarrow> strip_indi_id tag = []"
  by (auto simp: strip_indi_id_def remove_char_def filter_empty_conv)

lemma strip_fam_id_empty: "set tag \<subseteq> {CHR ''@'', CHR ''F''} \<Longrightarrow> strip_fam_id tag = []"
  by (auto simp: strip_fam_id_def remove_char_def filter_empty_conv)

lemma ind_foldl_falsy:
  "\<forall>x \<in> set sub. indi_line x = None \<Longrightarrow> \<not> truthy (current_individual st) \<Longrightarrow>
   foldl ind_step st sub = st"
  by (induction sub) (simp_all add: ind_step_falsy)

lemma fam_foldl_falsy:
  "\<forall>x \<in> set sub. fam_line x = None \<Longrightarrow> \<not> truthy (current_family st) \<Longrightarrow>
   foldl fam_step st sub = st"
  by (induction sub) (simp_all add: fam_step_falsy)

lemma ind_empty_record:
  assumes l: "indi_line l = Some tag" and e: "strip_indi_id tag = []"
      and sub: "\<forall>x \<in> set sub. indi_line x = None"
  shows "extract_individuals (pre @ l # sub @ post) inds = extract_individuals (pre @ l # post) inds"
    and "(case post of [] \<Rightarrow> True | l2 # rest \<Rightarrow> indi_line l2 \<noteq> None) \<Longrightarrow>
         extract_individuals (pre @ l # sub @ post) inds = extract_individuals (pre @ post) inds"
proof -
  let ?st = "foldl ind_step (ind_init inds) pre"
  let ?st1 = "ind_step ?st l"
  have st1: "?st1 = \<lparr>current_individual = Some [], current_record = Some (new_individual []),
      current_section = None, individuals_acc = ind_commit ?st\<rparr>"
    using ind_step_start [OF l, of ?st] e by simp
  then have "\<not> truthy (current_individual ?st1)" by (simp add: truthy_def)
  with sub have skip: "foldl ind_step ?st1 sub = ?st1" by (rule ind_foldl_falsy)
  show "extract_individuals (pre @ l # sub @ post) inds = extract_individuals (pre @ l # post) inds"
    by (simp add: extract_individuals_def skip)
  assume "(case post of [] \<Rightarrow> True | l2 # rest \<Rightarrow> indi_line l2 \<noteq> None)"
  then show "extract_individuals (pre @ l # sub @ post) inds = extract_individuals (pre @ post) inds"
  proof (cases post)
    case Nil
    then show ?thesis
      by (simp add: extract_individuals_def skip) (simp add: st1 ind_commit_def)
  next
    case (Cons l2 rest)
    assume "case post of [] \<Rightarrow> True | l2 # rest \<Rightarrow> indi_line l2 \<noteq> None"
    with Cons obtain t2 where l2: "indi_line l2 = Some t2" by auto
    have "ind_step ?st1 l2 = ind_step ?st l2"
      by (simp add: ind_step_start [OF l2]) (simp add: st1 ind_commit_def)
    then show ?thesis
      by (simp add: extract_individuals_def skip Cons)
  qed
qed

lemma fam_empty_record:
  assumes l: "fam_line l = Some tag" and e: "strip_fam_id tag = []"
      and sub: "\<forall>x \<in> set sub. fam_line x = None"
  shows "extract_families (pre @ l # sub @ post) fams = extract_families (pre @ l # post) fams"
    and "(case post of [] \<Rightarrow> True | l2 # rest \<Rightarrow> fam_line l2 \<noteq> None) \<Longrightarrow>
         extract_families (pre @ l # sub @ post) fams = extract_families (pre @ post) fams"
proof -
  let ?st = "foldl fam_step (fam_init fams) pre"
  let ?st1 = "fam_step ?st l"
  have st1: "?st1 = \<lparr>current_family = Some [], current_fam_record = Some (new_family []),
      families_acc = fam_commit ?st\<rparr>"
    using fam_step_start [OF l, of ?st] e by simp
  then have "\<not> truthy (current_family ?st1)" by (simp add: truthy_def)
  with sub have skip: "foldl fam_step ?st1 sub = ?st1" by (rule fam_foldl_falsy)
  show "extract_families (pre @ l # sub @ post) fams = extract_families (pre @ l # post) fams"
    by (simp add: extract_families_def skip)
  assume "(case post of [] \<Rightarrow> True | l2 # rest \<Rightarrow> fam_line l2 \<noteq> None)"
  then show "extract_families (pre @ l # sub @ post) fams = extract_families (pre @ post) fams"
  proof (cases post)
    case Nil
    then show ?thesis
      by (simp add: extract_families_def skip) (simp add: st1 fam_commit_def)
  next
    case (Cons l2 rest)
    assume "case post of [] \<Rightarrow> True | l2 # rest \<Rightarrow> fam_line l2 \<noteq> None"
    with Cons obtain t2 where l2: "fam_line l2 = Some t2" by auto
    have "fam_step ?st1 l2 = fam_step ?st l2"
      by (simp add: fam_step_start [OF l2]) (simp add: st1 fam_commit_def)
    then show ?thesis
      by (simp add: extract_families_def skip Cons)
  qed
qed

text \<open>
  C8 (amended). A record-start line whose identifier token consists only of \<open>@\<close> and
  \<open>I\<close> (for families: \<open>@\<close> and \<open>F\<close>) gets the empty id. The extraction loop of the
  record's own kind ignores every line after it up to the next record start of that
  kind; when the stream ends or that next record starts, the result of this loop is the
  same as without the record; and the empty string is never a key of either map.
\<close>

theorem empty_id_never_committed:
  assumes "indi_line l = Some tag" and "set tag \<subseteq> {CHR ''@'', CHR ''I''}"
      and "\<forall>x \<in> set sub. indi_line x = None"
      and "fam_line m = Some ftag" and "set ftag \<subseteq> {CHR ''@'', CHR ''F''}"
      and "\<forall>x \<in> set fsub. fam_line x = None"
  shows "strip_indi_id tag = [] \<and> strip_fam_id ftag = []
       \<and> extract_individuals (pre @ l # sub @ post) inds = extract_individuals (pre @ l # post) inds
       \<and> ((case post of [] \<Rightarrow> True | l2 # rest \<Rightarrow> indi_line l2 \<noteq> None) \<longrightarrow>
            extract_individuals (pre @ l # sub @ post) inds = extract_individuals (pre @ post) inds)
       \<and> extract_families (fpre @ m # fsub @ fpost) fams = extract_families (fpre @ m # fpost) fams
       \<and> ((case fpost of [] \<Rightarrow> True | l2 # rest \<Rightarrow> fam_line l2 \<noteq> None) \<longrightarrow>
            extract_families (fpre @ m # fsub @ fpost) fams = extract_families (fpre @ fpost) fams)
       \<and> [] \<notin> set (dict_keys (extract_individuals ls []))
       \<and> [] \<notin> set (dict_keys (extract_families ls []))"
proof -
  have e: "strip_indi_id tag = []" using assms(2) by (rule strip_indi_id_empty)
  have fe: "strip_fam_id ftag = []" using assms(5) by (rule strip_fam_id_empty)
  have k: "[] \<notin> set (dict_keys (extract_individuals ls []))"
    by (auto simp: extract_individuals_keys indi_ids_def)
  have fk: "[] \<notin> set (dict_keys (extract_families ls []))"
    by (auto simp: extract_families_keys fam_ids_def)
  from e fe k fk ind_empty_record [OF assms(1) e assms(3)]
    fam_empty_record [OF assms(4) fe assms(6)]
  show ?thesis by blast
qed

section \<open>The current section\<close>

text \<open>Evaluation of the string functions on concrete lines.\<close>

lemmas str_eval = py_strip_def strip_chars_def is_space_def is_int_space_def py_int_def
  is_digit_def
  digit_val_def eval_nat_numeral Let_def

lemma tok_I1: "tokenize ''0 @I1@ INDI'' = Some (0, ''@I1@'', ''INDI'', [''0'', ''@I1@'', ''INDI''])"
  by (simp add: tokenize_def str_eval)

lemma tok_BIRT: "tokenize ''1 BIRT'' = Some (1, ''BIRT'', [], [''1'', ''BIRT''])"
  by (simp add: tokenize_def str_eval)
lemma tok_DATE_a: "tokenize ''2 DATE a'' = Some (2, ''DATE'', ''a'', [''2'', ''DATE'', ''a''])"
  by (simp add: tokenize_def str_eval)
lemma tok_DATE_b: "tokenize ''2 DATE b'' = Some (2, ''DATE'', ''b'', [''2'', ''DATE'', ''b''])"
  by (simp add: tokenize_def str_eval)
lemma tok_FAMC: "tokenize ''1 FAMC @F1@'' = Some (1, ''FAMC'', ''@F1@'', [''1'', ''FAMC'', ''@F1@''])"
  by (simp add: tokenize_def str_eval)

lemma level1_section:
  "tag \<notin> {''BIRT'', ''DEAT'', ''OBJE'', ''NOTE''} \<Longrightarrow>
   current_section (ind_level1 st tag v) = current_section st"
  by (simp add: ind_level1_def upd_record_def Let_def)

lemma level2_section: "current_section (ind_level2 st sec tag v) = current_section st"
  by (cases sec) (simp_all add: ind_level2_def upd_record_def)

lemma section_frame:
  "tokenize line = Some (1, tag, v, parts) \<Longrightarrow> tag \<notin> {''BIRT'', ''DEAT'', ''OBJE'', ''NOTE''} \<Longrightarrow>
   current_section (ind_step st line) = current_section st"
  by (simp add: ind_step_def level1_section)

lemma section_change:
  assumes "current_section (ind_step st line) \<noteq> current_section st"
  shows "indi_line line \<noteq> None \<or>
     (\<exists>tag v parts. tokenize line = Some (1, tag, v, parts) \<and>
        tag \<in> {''BIRT'', ''DEAT'', ''OBJE'', ''NOTE''} \<and> truthy (current_individual st))"
proof (cases "tokenize line")
  case None
  with assms show ?thesis by (simp add: ind_step_def)
next
  case (Some t)
  obtain level tag v parts where t: "t = (level, tag, v, parts)" by (cases t)
  show ?thesis
  proof (cases "indi_line line")
    case (Some a)
    then show ?thesis by simp
  next
    case None
    with Some t have ns: "\<not> (level = 0 \<and> 3 \<le> length parts \<and> parts ! 2 = ''INDI'')"
      by (auto simp: indi_line_def split: if_splits)
    show ?thesis
    proof (cases "truthy (current_individual st) \<and> level = 1")
      case True
      with assms Some t ns have "current_section (ind_level1 st tag v) \<noteq> current_section st"
        by (simp add: ind_step_def)
      then have "tag \<in> {''BIRT'', ''DEAT'', ''OBJE'', ''NOTE''}"
        using level1_section [of tag st v] by blast
      with True Some t show ?thesis by blast
    next
      case False
      with assms Some t ns show ?thesis
        by (auto simp: ind_step_def level2_section split: if_splits option.splits)
    qed
  qed
qed

lemma section_example:
  assumes "truthy (current_individual st)" and "current_record st = Some r"
  shows "foldl ind_step st [''1 BIRT'', ''2 DATE a'', ''1 FAMC @F1@'', ''2 DATE b''] =
     st\<lparr>current_record :=
           Some (r\<lparr>birth := (birth r)\<lparr>date := Some ''b''\<rparr>,
                   families_as_child := families_as_child r @ [''1'']\<rparr>),
         current_section := Some Birth\<rparr>"
  using assms
  by (simp add: ind_step_def tok_BIRT tok_DATE_a tok_DATE_b tok_FAMC ind_level1_def
        ind_level2_def upd_record_def strip_fam_ref_def remove_char_def Let_def)

text \<open>
  C5. A level-1 line whose tag is none of \<open>BIRT\<close>, \<open>DEAT\<close>, \<open>OBJE\<close>, \<open>NOTE\<close> leaves the
  current section as it is; the section changes only at a record start or at one of
  these four tags while a record is open. So on \<open>1 BIRT\<close>, \<open>2 DATE a\<close>, \<open>1 FAMC @F1@\<close>,
  \<open>2 DATE b\<close> the second date still goes to the birth section and the birth date ends
  as \<open>b\<close>.
\<close>

theorem section_kept_by_other_tags:
  "(tokenize line = Some (1, tag, v, parts) \<and> tag \<notin> {''BIRT'', ''DEAT'', ''OBJE'', ''NOTE''} \<longrightarrow>
      current_section (ind_step st line) = current_section st)
   \<and> (current_section (ind_step st line) \<noteq> current_section st \<longrightarrow>
        indi_line line \<noteq> None \<or>
        (\<exists>tag v parts. tokenize line = Some (1, tag, v, parts) \<and>
           tag \<in> {''BIRT'', ''DEAT'', ''OBJE'', ''NOTE''} \<and> truthy (current_individual st)))
   \<and> (truthy (current_individual st) \<and> current_record st = Some r \<longrightarrow>
        foldl ind_step st [''1 BIRT'', ''2 DATE a'', ''1 FAMC @F1@'', ''2 DATE b''] =
          st\<lparr>current_record :=
                Some (r\<lparr>birth := (birth r)\<lparr>date := Some ''b''\<rparr>,
                        families_as_child := families_as_child r @ [''1'']\<rparr>),
              current_section := Some Birth\<rparr>)"
  using section_frame section_change section_example by blast

theorem section_kept_by_other_tags_witness:
  "tokenize ''1 FAMC @F1@'' = Some (1, ''FAMC'', ''@F1@'', [''1'', ''FAMC'', ''@F1@''])
   \<and> ''FAMC'' \<notin> {''BIRT'', ''DEAT'', ''OBJE'', ''NOTE''}
   \<and> current_section (ind_step
         \<lparr>current_individual = Some ''1'', current_record = Some (new_individual ''1''),
          current_section = Some Birth, individuals_acc = []\<rparr> ''1 FAMC @F1@'') = Some Birth
   \<and> current_section (ind_step
         \<lparr>current_individual = Some ''1'', current_record = Some (new_individual ''1''),
          current_section = None, individuals_acc = []\<rparr> ''1 BIRT'') \<noteq> None
   \<and> tokenize ''1 BIRT'' = Some (1, ''BIRT'', [], [''1'', ''BIRT''])
   \<and> extract_individuals
         [''0 @I1@ INDI'', ''1 BIRT'', ''2 DATE a'', ''1 FAMC @F1@'', ''2 DATE b''] [] =
       [(''1'', (new_individual ''1'')\<lparr>birth := \<lparr>date = Some ''b'', place = None\<rparr>,
                                        families_as_child := [''1'']\<rparr>)]"
proof -
  let ?S0 = "\<lparr>current_individual = Some ''1'', current_record = Some (new_individual ''1''),
          current_section = None, individuals_acc = []\<rparr>"
  let ?S1 = "\<lparr>current_individual = Some ''1'', current_record = Some (new_individual ''1''),
          current_section = Some Birth, individuals_acc = []\<rparr>"
  have a: "''FAMC'' \<notin> {''BIRT'', ''DEAT'', ''OBJE'', ''NOTE''}" by simp
  have b: "current_section (ind_step ?S1 ''1 FAMC @F1@'') = Some Birth"
    using section_kept_by_other_tags [of "''1 FAMC @F1@''" "''FAMC''" "''@F1@''"
        "[''1'', ''FAMC'', ''@F1@'']" ?S1] tok_FAMC a
    by simp
  have c: "current_section (ind_step ?S0 ''1 BIRT'') \<noteq> None"
    by (simp add: ind_step_def tok_BIRT truthy_def ind_level1_def)
  have open0: "truthy (current_individual ?S0) \<and> current_record ?S0 = Some (new_individual ''1'')"
    by (simp add: truthy_def)
  have start: "ind_step (ind_init []) ''0 @I1@ INDI'' = ?S0"
    by (simp add: ind_step_def tok_I1 ind_init_def ind_commit_def strip_indi_id_def
          remove_char_def Let_def)
  have d: "foldl ind_step ?S0 [''1 BIRT'', ''2 DATE a'', ''1 FAMC @F1@'', ''2 DATE b''] =
          ?S0\<lparr>current_record :=
                Some ((new_individual ''1'')\<lparr>birth := (birth (new_individual ''1''))\<lparr>date := Some ''b''\<rparr>,
                        families_as_child := families_as_child (new_individual ''1'') @ [''1'']\<rparr>),
              current_section := Some Birth\<rparr>"
    using section_kept_by_other_tags [of _ _ _ _ ?S0 "new_individual ''1''"] open0
    by blast
  have e: "extract_individuals
         [''0 @I1@ INDI'', ''1 BIRT'', ''2 DATE a'', ''1 FAMC @F1@'', ''2 DATE b''] [] =
       [(''1'', (new_individual ''1'')\<lparr>birth := \<lparr>date = Some ''b'', place = None\<rparr>,
                                        families_as_child := [''1'']\<rparr>)]"
  proof -
    have "extract_individuals
         [''0 @I1@ INDI'', ''1 BIRT'', ''2 DATE a'', ''1 FAMC @F1@'', ''2 DATE b''] [] =
       ind_commit (foldl ind_step ?S0 [''1 BIRT'', ''2 DATE a'', ''1 FAMC @F1@'', ''2 DATE b''])"
      unfolding extract_individuals_def by (subst foldl_Cons) (simp only: start)
    also have "\<dots> = [(''1'', (new_individual ''1'')\<lparr>birth := \<lparr>date = Some ''b'', place = None\<rparr>,
                                        families_as_child := [''1'']\<rparr>)]"
      unfolding d by (simp add: ind_commit_def new_individual_def empty_event_def)
    finally show ?thesis .
  qed
  from a b c e tok_FAMC tok_BIRT show ?thesis by blast
qed

section \<open>Tokenizing\<close>

lemma takeWhile_sep: "sep \<notin> set a \<Longrightarrow> takeWhile (\<lambda>c. c \<noteq> sep) (a @ sep # r) = a"
  by (induction a) auto

lemma dropWhile_sep: "sep \<notin> set a \<Longrightarrow> dropWhile (\<lambda>c. c \<noteq> sep) (a @ sep # r) = sep # r"
  by (induction a) auto

lemma py_split_none: "sep \<notin> set s \<Longrightarrow> py_split sep n s = [s]"
  by (cases n) simp_all

lemma py_split_two:
  "sep \<notin> set a \<Longrightarrow> sep \<notin> set b \<Longrightarrow> py_split sep 2 (a @ sep # b) = [a, b]"
  by (simp add: eval_nat_numeral takeWhile_sep dropWhile_sep py_split_none)

lemma py_split_three:
  "sep \<notin> set a \<Longrightarrow> sep \<notin> set b \<Longrightarrow> py_split sep 2 (a @ sep # b @ sep # c) = [a, b, c]"
  by (simp add: eval_nat_numeral takeWhile_sep dropWhile_sep)

lemma tokenize_three:
  assumes "py_strip line = line" and "line = a @ '' '' @ b @ '' '' @ c"
      and "CHR '' '' \<notin> set a" and "CHR '' '' \<notin> set b"
  shows "tokenize line = map_option (\<lambda>level. (level, b, c, [a, b, c])) (py_int a)"
  using assms py_split_three [of "CHR '' ''" a b c]
  by (simp add: tokenize_def Let_def split: option.splits)

lemma tokenize_two:
  assumes "py_strip line = line" and "line = a @ '' '' @ b"
      and "CHR '' '' \<notin> set a" and "CHR '' '' \<notin> set b"
  shows "tokenize line = map_option (\<lambda>level. (level, b, [], [a, b])) (py_int a)"
  using assms py_split_two [of "CHR '' ''" a b]
  by (simp add: tokenize_def Let_def split: option.splits)

lemma tokenize_one: "CHR '' '' \<notin> set (py_strip line) \<Longrightarrow> tokenize line = None"
  by (simp add: tokenize_def py_split_none Let_def)

lemma skipped_line:
  assumes "tokenize line = None \<or>
           (\<exists>level tag v parts. tokenize line = Some (level, tag, v, parts) \<and> level < 0)"
  shows "ind_step st line = st" and "fam_step fs line = fs"
  using assms by (auto simp: ind_step_def fam_step_def)

text \<open>
  C3 (amended). A normalized line is split at its first two single space characters
  into at most three fields, level, tag and the untouched remainder as value; a line
  without a space has one field and is skipped. A line that is skipped, or whose level
  is negative, leaves the state of both loops as it is.
\<close>

theorem tokenizer_single_spaces:
  "(py_strip line = line \<and> line = a @ '' '' @ b @ '' '' @ c \<and>
      CHR '' '' \<notin> set a \<and> CHR '' '' \<notin> set b \<longrightarrow>
      tokenize line = map_option (\<lambda>level. (level, b, c, [a, b, c])) (py_int a))
   \<and> (py_strip line = line \<and> line = a @ '' '' @ b \<and>
      CHR '' '' \<notin> set a \<and> CHR '' '' \<notin> set b \<longrightarrow>
      tokenize line = map_option (\<lambda>level. (level, b, [], [a, b])) (py_int a))
   \<and> (CHR '' '' \<notin> set (py_strip line) \<longrightarrow> tokenize line = None)
   \<and> (tokenize line = None \<or>
        (\<exists>level tag v parts. tokenize line = Some (level, tag, v, parts) \<and> level < 0) \<longrightarrow>
        ind_step st line = st \<and> fam_step fs line = fs)"
  using tokenize_three tokenize_two tokenize_one skipped_line by blast

text \<open>
  C3 as stated fails: a normalized line with tab-separated fields is not tokenized at
  all, and after a run of two spaces the tag is empty and the value holds the rest.
\<close>

theorem tab_line_not_tokenized:
  "py_strip tab_line = tab_line \<and> tab_line \<noteq> [] \<and> tokenize tab_line = None
   \<and> py_strip ''0  @I1@ INDI'' = ''0  @I1@ INDI''
   \<and> tokenize ''0  @I1@ INDI'' = Some (0, [], ''@I1@ INDI'', [''0'', [], ''@I1@ INDI''])"
  by (simp add: tab_line_def tokenize_def str_eval)

theorem tokenizer_single_spaces_witness:
  "py_strip ''0 @I1@ INDI'' = ''0 @I1@ INDI''
   \<and> tokenize ''0 @I1@ INDI'' = Some (0, ''@I1@'', ''INDI'', [''0'', ''@I1@'', ''INDI''])
   \<and> py_strip ''1 BIRT'' = ''1 BIRT''
   \<and> tokenize ''1 BIRT'' = Some (1, ''BIRT'', [], [''1'', ''BIRT''])
   \<and> CHR '' '' \<notin> set (py_strip ''TRLR'') \<and> tokenize ''TRLR'' = None
   \<and> ind_step \<lparr>current_individual = Some ''1'', current_record = Some (new_individual ''1''),
          current_section = Some Birth, individuals_acc = []\<rparr> ''x DATE a'' =
       \<lparr>current_individual = Some ''1'', current_record = Some (new_individual ''1''),
          current_section = Some Birth, individuals_acc = []\<rparr>
   \<and> tokenize ''-1 DATE a'' = Some (- 1, ''DATE'', ''a'', [''-1'', ''DATE'', ''a''])
   \<and> ind_step \<lparr>current_individual = Some ''1'', current_record = Some (new_individual ''1''),
          current_section = Some Birth, individuals_acc = []\<rparr> ''-1 DATE a'' =
       \<lparr>current_individual = Some ''1'', current_record = Some (new_individual ''1''),
          current_section = Some Birth, individuals_acc = []\<rparr>"
proof -
  let ?S = "\<lparr>current_individual = Some ''1'', current_record = Some (new_individual ''1''),
          current_section = Some Birth, individuals_acc = []\<rparr>"
  have s1: "py_strip ''0 @I1@ INDI'' = ''0 @I1@ INDI''" by (simp add: str_eval)
  have i0: "py_int ''0'' = Some 0" by (simp add: str_eval)
  have t1: "tokenize ''0 @I1@ INDI'' = Some (0, ''@I1@'', ''INDI'', [''0'', ''@I1@'', ''INDI''])"
    using tokenizer_single_spaces [of "''0 @I1@ INDI''" "''0''" "''@I1@''" "''INDI''"] s1 i0
    by simp
  have s2: "py_strip ''1 BIRT'' = ''1 BIRT''" by (simp add: str_eval)
  have i1: "py_int ''1'' = Some 1" by (simp add: str_eval)
  have t2: "tokenize ''1 BIRT'' = Some (1, ''BIRT'', [], [''1'', ''BIRT''])"
    using tokenizer_single_spaces [of "''1 BIRT''" "''1''" "''BIRT''"] s2 i1
    by simp
  have s3: "CHR '' '' \<notin> set (py_strip ''TRLR'')" by (simp add: str_eval)
  have t3: "tokenize ''TRLR'' = None"
    using tokenizer_single_spaces [of "''TRLR''"] s3 by blast
  have t4: "tokenize ''x DATE a'' = None" by (simp add: tokenize_def str_eval)
  have e4: "ind_step ?S ''x DATE a'' = ?S"
    using tokenizer_single_spaces [of "''x DATE a''" _ _ _ ?S] t4 by blast
  have t5: "tokenize ''-1 DATE a'' = Some (- 1, ''DATE'', ''a'', [''-1'', ''DATE'', ''a''])"
    by (simp add: tokenize_def str_eval)
  have e5: "ind_step ?S ''-1 DATE a'' = ?S"
    using tokenizer_single_spaces [of "''-1 DATE a''" _ _ _ ?S] t5 by simp
  from s1 t1 s2 t2 s3 t3 e4 t5 e5 show ?thesis by blast
qed

section \<open>A chain of three generations\<close>

lemma tok_I2: "tokenize ''0 @I2@ INDI'' = Some (0, ''@I2@'', ''INDI'', [''0'', ''@I2@'', ''INDI''])"
  by (simp add: tokenize_def str_eval)
lemma tok_I3: "tokenize ''0 @I3@ INDI'' = Some (0, ''@I3@'', ''INDI'', [''0'', ''@I3@'', ''INDI''])"
  by (simp add: tokenize_def str_eval)
lemma tok_F1: "tokenize ''0 @F1@ FAM'' = Some (0, ''@F1@'', ''FAM'', [''0'', ''@F1@'', ''FAM''])"
  by (simp add: tokenize_def str_eval)
lemma tok_F2: "tokenize ''0 @F2@ FAM'' = Some (0, ''@F2@'', ''FAM'', [''0'', ''@F2@'', ''FAM''])"
  by (simp add: tokenize_def str_eval)
lemma tok_S1: "tokenize ''1 FAMS @F1@'' = Some (1, ''FAMS'', ''@F1@'', [''1'', ''FAMS'', ''@F1@''])"
  by (simp add: tokenize_def str_eval)
lemma tok_S2: "tokenize ''1 FAMS @F2@'' = Some (1, ''FAMS'', ''@F2@'', [''1'', ''FAMS'', ''@F2@''])"
  by (simp add: tokenize_def str_eval)
lemma tok_C2: "tokenize ''1 CHIL @I2@'' = Some (1, ''CHIL'', ''@I2@'', [''1'', ''CHIL'', ''@I2@''])"
  by (simp add: tokenize_def str_eval)
lemma tok_C3: "tokenize ''1 CHIL @I3@'' = Some (1, ''CHIL'', ''@I3@'', [''1'', ''CHIL'', ''@I3@''])"
  by (simp add: tokenize_def str_eval)

lemmas chain_toks = tok_I1 tok_I2 tok_I3 tok_F1 tok_F2 tok_S1 tok_S2 tok_C2 tok_C3

lemmas ind_eval = extract_individuals_def ind_init_def ind_step_def ind_commit_def
  ind_level1_def ind_level2_def upd_record_def strip_indi_id_def strip_fam_ref_def
  remove_char_def truthy_def Let_def

lemmas fam_eval = extract_families_def fam_init_def fam_step_def fam_commit_def
  fam_level1_def fam_level2_def upd_fam_record_def strip_fam_id_def strip_indi_ref_def
  remove_char_def truthy_def Let_def

lemmas resolve_eval = resolve_relationships_def resolve_one_def clean_up_def add_parents_def
  add_spouse_children_def dict_get_def Let_def

lemma chain_normalized: "normalize_lines chain_lines = chain_lines"
  by (simp add: normalize_lines_def chain_lines_def str_eval)

lemma chain_extract_individuals:
  "extract_individuals chain_lines [] =
     [(''1'', (new_individual ''1'')\<lparr>families_as_spouse := [''1'']\<rparr>),
      (''2'', (new_individual ''2'')\<lparr>families_as_spouse := [''2'']\<rparr>),
      (''3'', new_individual ''3'')]"
  by (simp add: chain_lines_def ind_eval chain_toks new_individual_def)

lemma chain_extract_families: "extract_families chain_lines [] = chain_families"
  by (simp add: chain_lines_def chain_families_def fam_eval chain_toks new_family_def)

lemma chain_resolve:
  "resolve_relationships
     [(''1'', (new_individual ''1'')\<lparr>families_as_spouse := [''1'']\<rparr>),
      (''2'', (new_individual ''2'')\<lparr>families_as_spouse := [''2'']\<rparr>),
      (''3'', new_individual ''3'')] chain_families = chain_individuals"
  by (simp add: chain_individuals_def chain_families_def resolve_eval new_individual_def
        new_family_def)

lemma chain_parse:
  "fst (parse (Inr chain_lines) now (GEDCOMParser f)) =
     Inr \<lparr>res_individuals = chain_individuals, res_families = chain_families,
          res_summary = \<lparr>total_individuals = 3, total_families = 2, parsed_at = now,
                         error = None\<rparr>\<rparr>"
  by (simp add: parse_success chain_normalized chain_extract_individuals
        chain_extract_families chain_resolve)
     (simp add: chain_individuals_def chain_families_def)

text \<open>
  C1 fails on the code. For the three-generation chain and \<open>generations = 2\<close> the tree
  holds a node at generation \<open>-2\<close>, and that node carries the \<open>parents\<close> and \<open>children\<close>
  keys: the downward recursion is not stopped by the bound.
\<close>

theorem family_tree_unbounded_below:
  "fst (parse (Inr chain_lines) now (GEDCOMParser f)) =
     Inr \<lparr>res_individuals = chain_individuals, res_families = chain_families,
          res_summary = \<lparr>total_individuals = 3, total_families = 2, parsed_at = now,
                         error = None\<rparr>\<rparr>
   \<and> get_family_tree (Suc (Suc (Suc (Suc n)))) chain_individuals ''1'' 2 =
     Inr (Some (Node ''1'' [] empty_event empty_event 0 (Some [])
       (Some [Node ''2'' [] empty_event empty_event (- 1) (Some [])
         (Some [Node ''3'' [] empty_event empty_event (- 2) (Some []) (Some [])])])))"
  by (simp add: chain_parse)
     (simp add: get_family_tree_def chain_individuals_def dict_get_def new_individual_def)

lemma tok_H1: "tokenize ''1 HUSB @I1@'' = Some (1, ''HUSB'', ''@I1@'', [''1'', ''HUSB'', ''@I1@''])"
  by (simp add: tokenize_def str_eval)

lemma cycle_parse:
  "fst (parse (Inr [''0 @I1@ INDI'', ''1 FAMS @F1@'', ''0 @I2@ INDI'', ''1 FAMC @F1@'',
                    ''0 @F1@ FAM'', ''1 HUSB @I1@'', ''1 CHIL @I2@'']) now (GEDCOMParser f)) =
     Inr \<lparr>res_individuals = cycle_individuals,
          res_families = [(''1'', (new_family ''1'')\<lparr>husband := ''1'', fam_children := [''2'']\<rparr>)],
          res_summary = \<lparr>total_individuals = 2, total_families = 1, parsed_at = now,
                         error = None\<rparr>\<rparr>"
proof -
  let ?ls = "[''0 @I1@ INDI'', ''1 FAMS @F1@'', ''0 @I2@ INDI'', ''1 FAMC @F1@'',
              ''0 @F1@ FAM'', ''1 HUSB @I1@'', ''1 CHIL @I2@'']"
  have n: "normalize_lines ?ls = ?ls"
    by (simp add: normalize_lines_def str_eval)
  have i: "extract_individuals ?ls [] =
     [(''1'', (new_individual ''1'')\<lparr>families_as_spouse := [''1'']\<rparr>),
      (''2'', (new_individual ''2'')\<lparr>families_as_child := [''1'']\<rparr>)]"
    by (simp add: ind_eval chain_toks tok_FAMC tok_H1 new_individual_def)
  have f: "extract_families ?ls [] =
     [(''1'', (new_family ''1'')\<lparr>husband := ''1'', fam_children := [''2'']\<rparr>)]"
    by (simp add: fam_eval chain_toks tok_FAMC tok_H1 new_family_def)
  have r: "resolve_relationships
     [(''1'', (new_individual ''1'')\<lparr>families_as_spouse := [''1'']\<rparr>),
      (''2'', (new_individual ''2'')\<lparr>families_as_child := [''1'']\<rparr>)]
     [(''1'', (new_family ''1'')\<lparr>husband := ''1'', fam_children := [''2'']\<rparr>)] = cycle_individuals"
    by (simp add: cycle_individuals_def resolve_eval new_individual_def new_family_def)
  show ?thesis
    by (simp add: parse_success n i f r Let_def) (simp add: cycle_individuals_def)
qed

text \<open>
  On a parent and a child the upward and the downward recursion call each other at
  generations 0 and 1 without end: for every recursion depth the interpreter allows,
  the call ends in \<open>RecursionError\<close>.
\<close>

lemma cycle_build_tree:
  "build_tree depth cycle_individuals ''2'' 0 3 = Inl RecursionError \<and>
   build_tree depth cycle_individuals ''1'' 1 3 = Inl RecursionError"
proof (induction depth)
  case 0
  then show ?case by simp
next
  case (Suc depth)
  then show ?case
    by (simp add: cycle_individuals_def dict_get_def new_individual_def)
qed

lemma cycle_never_returns:
  "get_family_tree depth cycle_individuals ''2'' 3 = Inl RecursionError"
  using cycle_build_tree [of depth]
  by (simp add: get_family_tree_def) (simp add: cycle_individuals_def dict_get_def)

section \<open>Concrete runs\<close>

text \<open>C9 on the chain file.\<close>

theorem ids_equal_keys_witness:
  "fst (parse (Inr chain_lines) ''t'' (GEDCOMParser ''f'')) =
     Inr \<lparr>res_individuals = chain_individuals, res_families = chain_families,
          res_summary = \<lparr>total_individuals = 3, total_families = 2, parsed_at = ''t'',
                         error = None\<rparr>\<rparr>
   \<and> map (\<lambda>(k, i). ind_id i) chain_individuals = [''1'', ''2'', ''3'']
   \<and> dict_keys chain_individuals = [''1'', ''2'', ''3'']
   \<and> map (\<lambda>(k, fm). fam_id fm) chain_families = [''1'', ''2'']
   \<and> dict_keys chain_families = [''1'', ''2'']"
  using ids_equal_keys [of "Inr chain_lines" "''t''" "''f''"
      "\<lparr>res_individuals = chain_individuals, res_families = chain_families,
          res_summary = \<lparr>total_individuals = 3, total_families = 2, parsed_at = ''t'',
                         error = None\<rparr>\<rparr>"]
    chain_parse [of "''t''" "''f''"]
  by (simp add: chain_individuals_def chain_families_def dict_keys_def)

section \<open>Records without an id, on concrete lines\<close>

lemma tok_I_empty: "tokenize ''0 @I@ INDI'' = Some (0, ''@I@'', ''INDI'', [''0'', ''@I@'', ''INDI''])"
  by (simp add: tokenize_def str_eval)
lemma tok_F_empty: "tokenize ''0 @F@ FAM'' = Some (0, ''@F@'', ''FAM'', [''0'', ''@F@'', ''FAM''])"
  by (simp add: tokenize_def str_eval)
lemma tok_NAME_x: "tokenize ''1 NAME x'' = Some (1, ''NAME'', ''x'', [''1'', ''NAME'', ''x''])"
  by (simp add: tokenize_def str_eval)
lemma tok_DATE_y: "tokenize ''2 DATE y'' = Some (2, ''DATE'', ''y'', [''2'', ''DATE'', ''y''])"
  by (simp add: tokenize_def str_eval)
lemma tok_tab: "tokenize tab_line = None"
  by (simp add: tab_line_def tokenize_def str_eval)
lemma strip_tab: "py_strip tab_line = tab_line"
  by (simp add: tab_line_def str_eval)

lemma one_individual: "extract_individuals [''0 @I1@ INDI''] [] = [(''1'', new_individual ''1'')]"
  by (simp add: ind_eval tok_I1)

lemma one_family: "extract_families [''0 @F1@ FAM''] [] = [(''1'', new_family ''1'')]"
  by (simp add: fam_eval tok_F1)

text \<open>C8 on \<open>0 @I@ INDI\<close> and \<open>0 @F@ FAM\<close>.\<close>

theorem empty_id_never_committed_witness:
  "indi_line ''0 @I@ INDI'' = Some ''@I@'' \<and> strip_indi_id ''@I@'' = []
   \<and> indi_line ''1 NAME x'' = None \<and> indi_line ''2 DATE y'' = None
   \<and> extract_individuals [''0 @I1@ INDI'', ''0 @I@ INDI'', ''1 NAME x'', ''2 DATE y''] [] =
       [(''1'', new_individual ''1'')]
   \<and> fam_line ''0 @F@ FAM'' = Some ''@F@'' \<and> strip_fam_id ''@F@'' = []
   \<and> fam_line ''1 HUSB @I1@'' = None
   \<and> extract_families [''0 @F1@ FAM'', ''0 @F@ FAM'', ''1 HUSB @I1@''] [] =
       [(''1'', new_family ''1'')]"
proof -
  have i: "indi_line ''0 @I@ INDI'' = Some ''@I@''" by (simp add: indi_line_def tok_I_empty)
  have it: "set ''@I@'' \<subseteq> {CHR ''@'', CHR ''I''}" by simp
  have isub: "\<forall>x \<in> set [''1 NAME x'', ''2 DATE y'']. indi_line x = None"
    by (simp add: indi_line_def tok_NAME_x tok_DATE_y)
  have f: "fam_line ''0 @F@ FAM'' = Some ''@F@''" by (simp add: fam_line_def tok_F_empty)
  have ft: "set ''@F@'' \<subseteq> {CHR ''@'', CHR ''F''}" by simp
  have fsub: "\<forall>x \<in> set [''1 HUSB @I1@'']. fam_line x = None"
    by (simp add: fam_line_def tok_H1)
  note t = empty_id_never_committed [OF i it isub f ft fsub,
      of "[''0 @I1@ INDI'']" "[]" "[]" "[''0 @F1@ FAM'']" "[]" "[]" "[]"]
  from t have "(case [] :: string list of [] \<Rightarrow> True | l2 # rest \<Rightarrow> indi_line l2 \<noteq> None) \<longrightarrow>
      extract_individuals ([''0 @I1@ INDI''] @ ''0 @I@ INDI'' # [''1 NAME x'', ''2 DATE y''] @ []) [] =
      extract_individuals ([''0 @I1@ INDI''] @ []) []"
    by blast
  then have "extract_individuals [''0 @I1@ INDI'', ''0 @I@ INDI'', ''1 NAME x'', ''2 DATE y''] [] =
      extract_individuals [''0 @I1@ INDI''] []"
    by simp
  moreover from t have "(case [] :: string list of [] \<Rightarrow> True | l2 # rest \<Rightarrow> fam_line l2 \<noteq> None) \<longrightarrow>
      extract_families ([''0 @F1@ FAM''] @ ''0 @F@ FAM'' # [''1 HUSB @I1@''] @ []) [] =
      extract_families ([''0 @F1@ FAM''] @ []) []"
    by blast
  then have "extract_families [''0 @F1@ FAM'', ''0 @F@ FAM'', ''1 HUSB @I1@''] [] =
      extract_families [''0 @F1@ FAM''] []"
    by simp
  moreover from t have "strip_indi_id ''@I@'' = []" "strip_fam_id ''@F@'' = []"
    by blast+
  ultimately show ?thesis
    using i f isub fsub by (simp add: one_individual one_family)
qed

section \<open>Keys of the individuals map, on concrete lines\<close>

lemma indi_ids_example:
  "indi_ids [''0 @I1@ INDI'', ''0 @I@ INDI'', ''0 @I1@ INDI''] = {''1''}"
  by (simp add: indi_ids_simps indi_line_def tok_I1 tok_I_empty strip_indi_id_def remove_char_def)

lemma keys_example_parse:
  "fst (parse (Inr [''0 @I1@ INDI'', ''0 @I@ INDI'', ''0 @I1@ INDI'']) now (GEDCOMParser f)) =
     Inr \<lparr>res_individuals =
            [(''1'', (new_individual ''1'')\<lparr>parents := Some [], spouse := Some [],
                       children := Some []\<rparr>)],
          res_families = [],
          res_summary = \<lparr>total_individuals = 1, total_families = 0, parsed_at = now,
                         error = None\<rparr>\<rparr>"
proof -
  let ?ls = "[''0 @I1@ INDI'', ''0 @I@ INDI'', ''0 @I1@ INDI'']"
  have n: "normalize_lines ?ls = ?ls"
    by (simp add: normalize_lines_def str_eval)
  have i: "extract_individuals ?ls [] = [(''1'', new_individual ''1'')]"
    by (simp add: ind_eval tok_I1 tok_I_empty)
  have f: "extract_families ?ls [] = []"
    by (simp add: fam_eval tok_I1 tok_I_empty)
  have r: "resolve_relationships [(''1'', new_individual ''1'')] [] =
      [(''1'', (new_individual ''1'')\<lparr>parents := Some [], spouse := Some [],
                 children := Some []\<rparr>)]"
    by (simp add: resolve_eval new_individual_def)
  show ?thesis
    by (simp add: parse_success n i f r Let_def)
qed

text \<open>C2 (amended) on a file with a repeated and an empty identifier.\<close>

theorem individuals_keys_witness:
  "fst (parse (Inr [''0 @I1@ INDI'', ''0 @I@ INDI'', ''0 @I1@ INDI'']) ''t'' (GEDCOMParser ''f'')) =
     Inr \<lparr>res_individuals =
            [(''1'', (new_individual ''1'')\<lparr>parents := Some [], spouse := Some [],
                       children := Some []\<rparr>)],
          res_families = [],
          res_summary = \<lparr>total_individuals = 1, total_families = 0, parsed_at = ''t'',
                         error = None\<rparr>\<rparr>
   \<and> indi_ids [''0 @I1@ INDI'', ''0 @I@ INDI'', ''0 @I1@ INDI''] = {''1''}
   \<and> set (dict_keys [(''1'', (new_individual ''1'')\<lparr>parents := Some [], spouse := Some [],
                       children := Some []\<rparr>)]) =
       indi_ids [''0 @I1@ INDI'', ''0 @I@ INDI'', ''0 @I1@ INDI'']"
  using individuals_keys [OF keys_example_parse [of "''t''" "''f''"]]
    keys_example_parse [of "''t''" "''f''"] indi_ids_example
  by simp

text \<open>
  C2 as stated fails: \<open>0 @I@ INDI\<close> is a level-0 \<open>INDI\<close> line whose identifier strips to
  the empty string, and the tab-separated line has \<open>INDI\<close> as its third
  whitespace-delimited field; neither gives rise to an entry.
\<close>

theorem no_entry_for_empty_id:
  "indi_line ''0 @I@ INDI'' = Some ''@I@'' \<and> strip_indi_id ''@I@'' = []
   \<and> fst (parse (Inr [''0 @I@ INDI'', tab_line]) ''t'' (GEDCOMParser ''f'')) =
       Inr \<lparr>res_individuals = [], res_families = [],
            res_summary = \<lparr>total_individuals = 0, total_families = 0, parsed_at = ''t'',
                           error = None\<rparr>\<rparr>"
proof -
  let ?ls = "[''0 @I@ INDI'', tab_line]"
  have n: "normalize_lines ?ls = ?ls"
    by (simp add: normalize_lines_def strip_tab) (simp add: str_eval tab_line_def)
  have i: "extract_individuals ?ls [] = []"
    by (simp add: ind_eval tok_I_empty tok_tab)
  have f: "extract_families ?ls [] = []"
    by (simp add: fam_eval tok_I_empty tok_tab)
  have p: "fst (parse (Inr ?ls) ''t'' (GEDCOMParser ''f'')) =
       Inr \<lparr>res_individuals = [], res_families = [],
            res_summary = \<lparr>total_individuals = 0, total_families = 0, parsed_at = ''t'',
                           error = None\<rparr>\<rparr>"
    by (simp add: parse_success n i f Let_def resolve_relationships_def)
  have "indi_line ''0 @I@ INDI'' = Some ''@I@''" by (simp add: indi_line_def tok_I_empty)
  moreover have "strip_indi_id ''@I@'' = []" by (simp add: strip_indi_id_def remove_char_def)
  ultimately show ?thesis using p by simp
qed

section \<open>A second call on the same parser\<close>

lemma one_individual_resolved:
  "resolve_relationships [(''1'', new_individual ''1'')] [] =
     [(''1'', (new_individual ''1'')\<lparr>parents := Some [], spouse := Some [],
                children := Some []\<rparr>)]"
  by (simp add: resolve_eval new_individual_def)

lemma first_parse_state:
  "snd (parse (Inr [''0 @I1@ INDI'']) ''t1'' (GEDCOMParser ''f'')) =
     \<lparr>gedcom_file = ''f'',
      individuals = [(''1'', (new_individual ''1'')\<lparr>parents := Some [], spouse := Some [],
                               children := Some []\<rparr>)],
      families = [], lines = [''0 @I1@ INDI'']\<rparr>"
proof -
  have n: "normalize_lines [''0 @I1@ INDI''] = [''0 @I1@ INDI'']"
    by (simp add: normalize_lines_def str_eval)
  have f: "extract_families [''0 @I1@ INDI''] [] = []"
    by (simp add: fam_eval tok_I1)
  show ?thesis
    by (simp add: parse_success n one_individual f one_individual_resolved Let_def)
qed

text \<open>
  C6 as stated fails on a parser that has parsed before: \<open>parse\<close> does not reset the maps,
  so after a failed read the result still holds the individual of the first call.
\<close>

theorem reused_parser_keeps_maps:
  "fst (parse (Inl (Exception ''no file'')) ''t2''
          (snd (parse (Inr [''0 @I1@ INDI'']) ''t1'' (GEDCOMParser ''f'')))) =
     Inr \<lparr>res_individuals =
            [(''1'', (new_individual ''1'')\<lparr>parents := Some [], spouse := Some [],
                       children := Some []\<rparr>)],
          res_families = [],
          res_summary = \<lparr>total_individuals = 1, total_families = 0, parsed_at = ''t2'',
                         error = None\<rparr>\<rparr>"
proof -
  let ?R = "(new_individual ''1'')\<lparr>parents := Some [], spouse := Some [], children := Some []\<rparr>"
  have i: "extract_individuals [] [(''1'', ?R)] = [(''1'', ?R)]"
    by (simp add: extract_individuals_def ind_init_def ind_commit_def)
  have r: "resolve_relationships [(''1'', ?R)] [] = [(''1'', ?R)]"
    by (simp add: resolve_eval new_individual_def)
  show ?thesis
    by (simp only: first_parse_state) (simp add: parse_state i extract_families_Nil r Let_def)
qed

section \<open>Lines of a record without an id in the other loop\<close>

text \<open>
  C8 as stated fails: the individuals loop does not see \<open>0 @F@ FAM\<close> as a record start,
  so the line under it goes to the individual that is still open and replaces its birth
  date.
\<close>

theorem sub_line_reaches_other_loop:
  "fam_line ''0 @F@ FAM'' = Some ''@F@'' \<and> strip_fam_id ''@F@'' = []
   \<and> fst (parse (Inr [''0 @I1@ INDI'', ''1 BIRT'', ''2 DATE a'', ''0 @F@ FAM'', ''2 DATE b''])
          ''t'' (GEDCOMParser ''f'')) =
       Inr \<lparr>res_individuals =
              [(''1'', (new_individual ''1'')\<lparr>birth := \<lparr>date = Some ''b'', place = None\<rparr>,
                         parents := Some [], spouse := Some [], children := Some []\<rparr>)],
            res_families = [],
            res_summary = \<lparr>total_individuals = 1, total_families = 0, parsed_at = ''t'',
                           error = None\<rparr>\<rparr>"
proof -
  let ?ls = "[''0 @I1@ INDI'', ''1 BIRT'', ''2 DATE a'', ''0 @F@ FAM'', ''2 DATE b'']"
  have n: "normalize_lines ?ls = ?ls"
    by (simp add: normalize_lines_def str_eval)
  have i: "extract_individuals ?ls [] =
      [(''1'', (new_individual ''1'')\<lparr>birth := \<lparr>date = Some ''b'', place = None\<rparr>\<rparr>)]"
    by (simp add: ind_eval tok_I1 tok_BIRT tok_DATE_a tok_F_empty tok_DATE_b
          new_individual_def empty_event_def)
  have f: "extract_families ?ls [] = []"
    by (simp add: fam_eval tok_I1 tok_BIRT tok_DATE_a tok_F_empty tok_DATE_b)
  have r: "resolve_relationships
      [(''1'', (new_individual ''1'')\<lparr>birth := \<lparr>date = Some ''b'', place = None\<rparr>\<rparr>)] [] =
      [(''1'', (new_individual ''1'')\<lparr>birth := \<lparr>date = Some ''b'', place = None\<rparr>,
                 parents := Some [], spouse := Some [], children := Some []\<rparr>)]"
    by (simp add: resolve_eval new_individual_def)
  have p: "fst (parse (Inr ?ls) ''t'' (GEDCOMParser ''f'')) =
       Inr \<lparr>res_individuals =
              [(''1'', (new_individual ''1'')\<lparr>birth := \<lparr>date = Some ''b'', place = None\<rparr>,
                         parents := Some [], spouse := Some [], children := Some []\<rparr>)],
            res_families = [],
            res_summary = \<lparr>total_individuals = 1, total_families = 0, parsed_at = ''t'',
                           error = None\<rparr>\<rparr>"
    by (simp add: parse_success n i f r Let_def)
  have "fam_line ''0 @F@ FAM'' = Some ''@F@''" by (simp add: fam_line_def tok_F_empty)
  moreover have "strip_fam_id ''@F@'' = []" by (simp add: strip_fam_id_def remove_char_def)
  ultimately show ?thesis using p by simp
qed

end
